theory Spec2Isabelle
  imports Complex_Main
begin

section \<open>Numbers and strings of the source language\<close>

text \<open>
  The editor is TypeScript. Its \<open>number\<close> values are IEEE 754 doubles; a finite double
  is the \<^typ>\<open>real\<close> it denotes, and NaN and the infinities are not represented (the
  numbers passed in are finite, and so are all results in the ranges the statements
  below cover). Values that the code has just rounded or parsed are \<^typ>\<open>int\<close>.

  Where a result turns on how the code's arithmetic is rounded (the conversions to and
  from CMYK, the colour mix, the crop rectangle) every arithmetic operation is followed
  by \<open>fl\<close>, the rounding to the nearest double. The coordinates and offsets of a gradient
  and the text gesture are written with the exact operations of \<^typ>\<open>real\<close>.

  Strings are \<^typ>\<open>string\<close>, one \<^typ>\<open>char\<close> per code unit, for code units below 256.
\<close>

text \<open>The number of binary digits of a positive integer.\<close>

function bitlen :: "int \<Rightarrow> nat" where
  "bitlen n = (if n \<le> 0 then 0 else Suc (bitlen (n div 2)))"
  by pat_completeness auto
termination
  by (relation "measure nat") auto

declare bitlen.simps [simp del]

text \<open>For \<open>y > 0\<close>, the exponent \<open>e\<close> with \<open>2^e \<le> y < 2^(e+1)\<close>.\<close>

definition ilog2 :: "real \<Rightarrow> int" where
  "ilog2 y = (if 1 \<le> y then int (bitlen \<lfloor>y\<rfloor>) - 1 else - int (bitlen (\<lceil>1 / y\<rceil> - 1)))"

text \<open>The nearest integer, ties to the even one.\<close>

definition roundHalfEven :: "real \<Rightarrow> int" where
  "roundHalfEven y =
     (let f = \<lfloor>y\<rfloor>; r = y - of_int f
      in if r < 1 / 2 then f else if 1 / 2 < r then f + 1 else if even f then f else f + 1)"

text \<open>
  The double nearest to a real, ties to the even significand: a multiple of the unit in
  the last place of a 53-bit significand, whose exponent does not go below that of the
  subnormal numbers. (Beyond the largest double the code has an infinity, and the model
  keeps this rounding with an unbounded exponent.)
\<close>

definition fl :: "real \<Rightarrow> real" where
  "fl x =
     (if x = 0 then 0
      else let u = 2 powi (max (ilog2 \<bar>x\<bar>) (- 1022) - 52)
           in of_int (roundHalfEven (x / u)) * u)"

text \<open>\<open>Math.round\<close>: the nearest integer, ties towards plus infinity.\<close>

definition Math_round :: "real \<Rightarrow> int" where
  "Math_round v = \<lfloor>v + 1 / 2\<rfloor>"

text \<open>\<open>a || d\<close> on numbers: \<open>0\<close> is falsy, every other (finite) number is kept.\<close>

definition or_num :: "real \<Rightarrow> real \<Rightarrow> real" where
  "or_num a d = (if a = 0 then d else a)"

text \<open>\<open>String.prototype.toLowerCase\<close> on code units below 256: the letters \<open>A\<close> to \<open>Z\<close>,
  and the capital letters U+00C0 to U+00DE except the multiplication sign U+00D7, each
  32 below its small letter.\<close>

definition toLowerChar :: "char \<Rightarrow> char" where
  "toLowerChar ch =
     (case map_of (zip
         (''ABCDEFGHIJKLMNOPQRSTUVWXYZ'' @
          [CHR 0xC0, CHR 0xC1, CHR 0xC2, CHR 0xC3, CHR 0xC4, CHR 0xC5, CHR 0xC6, CHR 0xC7,
           CHR 0xC8, CHR 0xC9, CHR 0xCA, CHR 0xCB, CHR 0xCC, CHR 0xCD, CHR 0xCE, CHR 0xCF,
           CHR 0xD0, CHR 0xD1, CHR 0xD2, CHR 0xD3, CHR 0xD4, CHR 0xD5, CHR 0xD6,
           CHR 0xD8, CHR 0xD9, CHR 0xDA, CHR 0xDB, CHR 0xDC, CHR 0xDD, CHR 0xDE])
         (''abcdefghijklmnopqrstuvwxyz'' @
          [CHR 0xE0, CHR 0xE1, CHR 0xE2, CHR 0xE3, CHR 0xE4, CHR 0xE5, CHR 0xE6, CHR 0xE7,
           CHR 0xE8, CHR 0xE9, CHR 0xEA, CHR 0xEB, CHR 0xEC, CHR 0xED, CHR 0xEE, CHR 0xEF,
           CHR 0xF0, CHR 0xF1, CHR 0xF2, CHR 0xF3, CHR 0xF4, CHR 0xF5, CHR 0xF6,
           CHR 0xF8, CHR 0xF9, CHR 0xFA, CHR 0xFB, CHR 0xFC, CHR 0xFD, CHR 0xFE])) ch of
        None \<Rightarrow> ch
      | Some l \<Rightarrow> l)"

definition toLowerCase :: "string \<Rightarrow> string" where
  "toLowerCase s = map toLowerChar s"

text \<open>The value of a hexadecimal digit, in either case.\<close>

definition hexDigit :: "char \<Rightarrow> int option" where
  "hexDigit ch = map_of (zip ''0123456789abcdefABCDEF'' ([0, 1, 2, 3, 4, 5, 6, 7, 8, 9,
     10, 11, 12, 13, 14, 15] @ [10, 11, 12, 13, 14, 15])) ch"

definition isHexDigit :: "char \<Rightarrow> bool" where
  "isHexDigit ch = (hexDigit ch \<noteq> None)"

text \<open>The mathematical value of a string of hexadecimal digits, most significant first.\<close>

definition hexValue :: "string \<Rightarrow> int" where
  "hexValue ds = foldl (\<lambda>acc ch. 16 * acc + the (hexDigit ch)) 0 ds"

text \<open>
  The Number value of a non-negative mathematical integer: itself below \<open>2^53\<close>, above
  that the nearest multiple of the unit in the last place of a 53-bit significand (ties to
  the even significand), and \<open>None\<close> for Infinity once that reaches \<open>2^1024\<close>.
\<close>

definition toNumber :: "int \<Rightarrow> int option" where
  "toNumber n =
     (if n < 2 ^ 53 then Some n
      else
        let e = bitlen n - 53;
            q = n div 2 ^ e;
            rest = n mod 2 ^ e;
            half = 2 ^ (e - 1);
            q' = (if half < rest \<or> (rest = half \<and> odd q) then q + 1 else q);
            v = q' * 2 ^ e
        in if 2 ^ 1024 \<le> v then None else Some v)"

text \<open>The white space and line terminators that \<open>parseInt\<close> skips, among the code units
  below 256: tab, line feed, vertical tab, form feed, carriage return, space and the
  no-break space U+00A0.\<close>

definition isWhiteSpace :: "char \<Rightarrow> bool" where
  "isWhiteSpace ch =
     (ch \<in> set [CHR 0x09, CHR 0x0A, CHR 0x0B, CHR 0x0C, CHR 0x0D, CHR 0x20, CHR 0xA0])"

text \<open>
  \<open>parseInt(s, 16)\<close>: leading white space is skipped, then an optional sign, then an
  optional \<open>0x\<close> or \<open>0X\<close>, then the longest run of hexadecimal digits is read; what
  follows is ignored. \<open>None\<close> stands for a result that is not a finite number: NaN when
  there is no digit, or an infinity on overflow.
\<close>

definition stripSign :: "string \<Rightarrow> int \<times> string" where
  "stripSign s =
     (case s of
        [] \<Rightarrow> (1, [])
      | ch # rest \<Rightarrow>
          if ch = CHR ''-'' then (- 1, rest)
          else if ch = CHR ''+'' then (1, rest)
          else (1, s))"

definition stripPrefix :: "string \<Rightarrow> string" where
  "stripPrefix s =
     (case s of
        a # b # rest \<Rightarrow>
          if a = CHR ''0'' \<and> (b = CHR ''x'' \<or> b = CHR ''X'') then rest else s
      | _ \<Rightarrow> s)"

definition parseInt16 :: "string \<Rightarrow> int option" where
  "parseInt16 s =
     (let (sign, s1) = stripSign (dropWhile isWhiteSpace s);
          z = takeWhile isHexDigit (stripPrefix s1)
      in if z = [] then None
         else map_option (\<lambda>v. sign * v) (toNumber (hexValue z)))"

text \<open>\<open>ToInt32\<close>, as applied by the operators \<open>>>\<close> and \<open>&\<close>: NaN and the infinities
  become \<open>0\<close>, a finite integer is reduced modulo \<open>2^32\<close> into the signed range.\<close>

definition toInt32 :: "int option \<Rightarrow> int" where
  "toInt32 v =
     (case v of
        None \<Rightarrow> 0
      | Some n \<Rightarrow> (let m = n mod 2 ^ 32 in if 2 ^ 31 \<le> m then m - 2 ^ 32 else m))"

text \<open>\<open>v.toString(16)\<close> for an integer \<open>v\<close>, and \<open>padStart(2, "0")\<close>.\<close>

function toHex :: "int \<Rightarrow> string" where
  "toHex n =
     (if n < 16 then [''0123456789abcdef'' ! nat n]
      else toHex (n div 16) @ [''0123456789abcdef'' ! nat (n mod 16)])"
  by pat_completeness auto
termination
  by (relation "measure nat") auto

declare toHex.simps [simp del]

definition toString16 :: "int \<Rightarrow> string" where
  "toString16 v = (if v < 0 then CHR ''-'' # toHex (- v) else toHex v)"

definition padStart2 :: "string \<Rightarrow> string" where
  "padStart2 s = replicate (2 - length s) CHR ''0'' @ s"

section \<open>Colour helpers of the gradient code (CanvasStage.tsx, inside applyGradient)\<close>

datatype rgb = RGB int int int

text \<open>The string \<open>rgba(r, g, b, alpha)\<close> built by the template literal of \<open>toRgba\<close>,
  kept as the four numbers it interpolates.\<close>

datatype rgba = RGBA int int int real

text \<open>\<open>hex.replace("#", "")\<close>: the first \<open>#\<close> of the string is removed.\<close>

fun removeFirstHash :: "string \<Rightarrow> string" where
  "removeFirstHash [] = []"
| "removeFirstHash (ch # rest) = (if ch = CHR ''#'' then rest else ch # removeFirstHash rest)"

definition expand3 :: "string \<Rightarrow> string" where
  "expand3 h =
     (case h of
        [h0, h1, h2] \<Rightarrow> [h0, h0, h1, h1, h2, h2]
      | _ \<Rightarrow> h)"

text \<open>The local \<open>hexToRgb\<close> of \<open>applyGradient\<close>.\<close>

definition stage_hexToRgb :: "string \<Rightarrow> rgb" where
  "stage_hexToRgb hex =
     (let h = expand3 (removeFirstHash hex);
          bigint = toInt32 (parseInt16 h)
      in RGB (and (drop_bit 16 bigint) 255) (and (drop_bit 8 bigint) 255) (and bigint 255))"

text \<open>A colour whose channels all lie in \<open>[0, 255]\<close>.\<close>

fun wellFormed :: "rgb \<Rightarrow> bool" where
  "wellFormed (RGB r g b) = (0 \<le> r \<and> r \<le> 255 \<and> 0 \<le> g \<and> g \<le> 255 \<and> 0 \<le> b \<and> b \<le> 255)"

definition toRgba :: "string \<Rightarrow> real \<Rightarrow> rgba" where
  "toRgba hex alpha = (case stage_hexToRgb hex of RGB r g b \<Rightarrow> RGBA r g b alpha)"

text \<open>
  \<open>mixColor\<close> rounds \<open>a + (b - a) * t\<close> per channel, in double arithmetic. Its \<open>t\<close> is a
  double of the code: the quotient \<open>midPct / 100\<close>, or one of the literals \<open>0.35\<close> and
  \<open>0.7\<close>. The model is handed the real quotient or decimal, and takes the double nearest
  to it, which is what the division or the literal yields.
\<close>

definition mixChannel :: "int \<Rightarrow> int \<Rightarrow> real \<Rightarrow> int" where
  "mixChannel a b t =
     Math_round (fl (real_of_int a + fl (fl (real_of_int b - real_of_int a) * fl t)))"

definition mixColor :: "string \<Rightarrow> string \<Rightarrow> real \<Rightarrow> string" where
  "mixColor aHex bHex t =
     (case (stage_hexToRgb aHex, stage_hexToRgb bHex) of
        (RGB ar ag ab, RGB br bg bb) \<Rightarrow>
          let r = mixChannel ar br t;
              g = mixChannel ag bg t;
              blue = mixChannel ab bb t
          in CHR ''#'' # concat (map (\<lambda>v. padStart2 (toString16 v)) [r, g, blue]))"

section \<open>The gradient compiler (CanvasStage.tsx, applyGradient)\<close>

datatype applyTarget = Fill | Stroke | Both

record gradientOptions =
  type :: string
  c1 :: string
  c2 :: string
  mid :: "real option"
  angle :: "real option"
  opacity :: "real option"
  origin :: "(real \<times> real) option"
  aspectRatio :: "real option"
  reverse :: "bool option"
  applyTo :: "applyTarget option"

record colorStop =
  offset :: real
  color :: rgba

text \<open>The two shapes of \<open>fabric.Gradient\<close> the code constructs:
  \<open>radial\<close> with coords \<open>x1 y1 r1 x2 y2 r2\<close>, and \<open>linear\<close> with coords \<open>x1 y1 x2 y2\<close>.\<close>

datatype gradient =
  RadialGradient real real real real real real "colorStop list"
| LinearGradient real real real real "colorStop list"

fun colorStops :: "gradient \<Rightarrow> colorStop list" where
  "colorStops (RadialGradient x1 y1 r1 x2 y2 r2 stops) = stops"
| "colorStops (LinearGradient x1 y1 x2 y2 stops) = stops"

definition stop :: "real \<Rightarrow> rgba \<Rightarrow> colorStop" where
  "stop off col = \<lparr>offset = off, color = col\<rparr>"

text \<open>\<open>options.origin || { x: 0, y: 0 }\<close>; the pair is \<open>(x, y)\<close>.\<close>

definition originOf :: "gradientOptions \<Rightarrow> real \<times> real" where
  "originOf options = (case origin options of None \<Rightarrow> (0, 0) | Some p \<Rightarrow> p)"

text \<open>\<open>Math.max(0.01, options.aspectRatio || 1)\<close>.\<close>

definition aspectOf :: "gradientOptions \<Rightarrow> real" where
  "aspectOf options =
     max (1 / 100) (case aspectRatio options of None \<Rightarrow> 1 | Some a \<Rightarrow> or_num a 1)"

text \<open>\<open>(options.type || "linear").toLowerCase()\<close>: the empty string is falsy.\<close>

definition typeOf :: "gradientOptions \<Rightarrow> string" where
  "typeOf options = toLowerCase (if type options = [] then ''linear'' else type options)"

definition midPctOf :: "gradientOptions \<Rightarrow> real" where
  "midPctOf options = (case mid options of None \<Rightarrow> 50 | Some m \<Rightarrow> m)"

definition midOf :: "gradientOptions \<Rightarrow> real" where
  "midOf options = midPctOf options / 100"

definition angleValOf :: "gradientOptions \<Rightarrow> real" where
  "angleValOf options = (case angle options of None \<Rightarrow> 0 | Some a \<Rightarrow> a)"

definition alphaOf :: "gradientOptions \<Rightarrow> real" where
  "alphaOf options = (case opacity options of None \<Rightarrow> 100 | Some a \<Rightarrow> a) / 100"

definition cStartOf :: "gradientOptions \<Rightarrow> string" where
  "cStartOf options = (if reverse options = Some True then c2 options else c1 options)"

definition cEndOf :: "gradientOptions \<Rightarrow> string" where
  "cEndOf options = (if reverse options = Some True then c1 options else c2 options)"

text \<open>
  The body of the loop over the selected objects, up to the value of \<open>grad\<close>:
  \<open>width\<close> and \<open>height\<close> are those of the object's bounding rectangle.
\<close>

definition grad :: "gradientOptions \<Rightarrow> real \<Rightarrow> real \<Rightarrow> gradient" where
  "grad options width height =
     (let orig = originOf options;
          aspect = aspectOf options;
          ty = typeOf options;
          m = midOf options;
          angleVal = angleValOf options;
          alpha = alphaOf options;
          cStart = cStartOf options;
          cEnd = cEndOf options;
          c1Rgba = toRgba cStart alpha;
          c2Rgba = toRgba cEnd alpha;
          mixedMidHex = mixColor cStart cEnd m;
          mixedMidRgba = toRgba mixedMidHex alpha
      in
        if ty = ''radial'' \<or> ty = ''conic'' then
          let r2 = max width height / 2
          in RadialGradient
               (width * or_num (fst orig) (1 / 2)) (height * or_num (snd orig) (1 / 2)) 0
               (width * or_num (fst orig) (1 / 2)) (height * or_num (snd orig) (1 / 2)) r2
               [stop 0 c1Rgba, stop m mixedMidRgba, stop 1 c2Rgba]
        else if ty = ''diamond'' then
          let r2 = (min width height / 2) * aspect
          in RadialGradient
               (width * or_num (fst orig) (1 / 2)) (height * or_num (snd orig) (1 / 2)) 0
               (width * or_num (fst orig) (1 / 2)) (height * or_num (snd orig) (1 / 2)) r2
               [stop 0 c1Rgba, stop m mixedMidRgba, stop 1 c2Rgba]
        else
          let rad = (angleVal * pi) / 180;
              x1 = width * or_num (fst orig) 0;
              y1 = height * or_num (snd orig) 0;
              x2 = x1 + cos rad * width * aspect;
              y2 = y1 + sin rad * height;
              stops =
                (if ty = ''reflected'' then
                   let mixStartHex = mixColor cStart cEnd m;
                       mixStartRgba = toRgba mixStartHex alpha;
                       mirroredMid = 1 - m
                   in [stop 0 c1Rgba, stop m mixStartRgba,
                       stop mirroredMid mixStartRgba, stop 1 c1Rgba]
                 else if ty = ''multi-point'' \<or> ty = ''multi'' then
                   let mix35Hex = mixColor cStart cEnd (35 / 100);
                       mix70Hex = mixColor cStart cEnd (7 / 10)
                   in [stop 0 c1Rgba, stop (35 / 100) (toRgba mix35Hex alpha),
                       stop (7 / 10) (toRgba mix70Hex alpha), stop 1 c2Rgba]
                 else [stop 0 c1Rgba, stop m mixedMidRgba, stop 1 c2Rgba])
          in LinearGradient x1 y1 x2 y2 stops)"

text \<open>The offsets of a compiled gradient, in the order of its stop list.\<close>

definition offsets :: "gradient \<Rightarrow> real list" where
  "offsets gr = map offset (colorStops gr)"

text \<open>The outer radius of a radial gradient, and the vector from the start point to the
  end point of a linear one.\<close>

fun outerRadius :: "gradient \<Rightarrow> real option" where
  "outerRadius (RadialGradient x1 y1 r1 x2 y2 r2 stops) = Some r2"
| "outerRadius (LinearGradient x1 y1 x2 y2 stops) = None"

fun direction :: "gradient \<Rightarrow> (real \<times> real) option" where
  "direction (RadialGradient x1 y1 r1 x2 y2 r2 stops) = None"
| "direction (LinearGradient x1 y1 x2 y2 stops) = Some (x2 - x1, y2 - y1)"

definition inUnit :: "real \<Rightarrow> bool" where
  "inUnit v = (0 \<le> v \<and> v \<le> 1)"

text \<open>The stop list is ordered by offset and every offset lies in \<open>[0, 1]\<close>.\<close>

definition stopsOrderedInUnit :: "gradient \<Rightarrow> bool" where
  "stopsOrderedInUnit gr = (sorted (offsets gr) \<and> list_all inUnit (offsets gr))"

text \<open>
  What the loop does with \<open>grad\<close>: it becomes the stroke and/or the fill of every
  selected object. The canvas is the list of its objects; \<open>active\<close> marks the selected
  ones. Without an engine, or with nothing selected, nothing happens.
\<close>

datatype paint = Plain string | Gradient gradient

record fabricObject =
  boundsWidth :: real
  boundsHeight :: real
  active :: bool
  fill :: paint
  stroke :: paint

definition setGradient :: "gradientOptions \<Rightarrow> fabricObject \<Rightarrow> fabricObject" where
  "setGradient options obj =
     (let gr = grad options (boundsWidth obj) (boundsHeight obj);
          target = (case applyTo options of None \<Rightarrow> Fill | Some a \<Rightarrow> a);
          obj1 = (if target = Stroke \<or> target = Both then obj\<lparr>stroke := Gradient gr\<rparr> else obj)
      in if target = Fill \<or> target = Both then obj1\<lparr>fill := Gradient gr\<rparr> else obj1)"

definition applyGradient ::
  "gradientOptions \<Rightarrow> fabricObject list option \<Rightarrow> fabricObject list option" where
  "applyGradient options engine =
     (case engine of
        None \<Rightarrow> None
      | Some canvas \<Rightarrow>
          if filter active canvas = [] then Some canvas
          else Some (map (\<lambda>obj. if active obj then setGradient options obj else obj) canvas))"

section \<open>Colour helpers of the sidebar (LeftSidebar.tsx)\<close>

datatype cmyk = CMYK int int int int

text \<open>\<open>clamp(n, min = 0, max = 1)\<close>.\<close>

definition clamp :: "real \<Rightarrow> real \<Rightarrow> real \<Rightarrow> real" where
  "clamp n lo hi = min hi (max lo n)"

text \<open>Both conversions in double arithmetic: \<open>255 * (1 - C) * (1 - K)\<close> is
  \<open>(255 * (1 - C)) * (1 - K)\<close>, and \<open>1 - R - K\<close> is \<open>(1 - R) - K\<close>.\<close>

definition cmykToRgb :: "real \<Rightarrow> real \<Rightarrow> real \<Rightarrow> real \<Rightarrow> rgb" where
  "cmykToRgb c m y k =
     (let C = fl (c / 100); M = fl (m / 100); Y = fl (y / 100); K = fl (k / 100)
      in RGB (Math_round (fl (fl (255 * fl (1 - C)) * fl (1 - K))))
             (Math_round (fl (fl (255 * fl (1 - M)) * fl (1 - K))))
             (Math_round (fl (fl (255 * fl (1 - Y)) * fl (1 - K)))))"

definition rgbToCmyk :: "real \<Rightarrow> real \<Rightarrow> real \<Rightarrow> cmyk" where
  "rgbToCmyk r g b =
     (let R = fl (r / 255); G = fl (g / 255); B = fl (b / 255);
          K = fl (1 - max (max R G) B);
          C = (if K = 1 then 0 else fl (fl (fl (1 - R) - K) / fl (1 - K)));
          M = (if K = 1 then 0 else fl (fl (fl (1 - G) - K) / fl (1 - K)));
          Y = (if K = 1 then 0 else fl (fl (fl (1 - B) - K) / fl (1 - K)))
      in CMYK (Math_round (fl (clamp C 0 1 * 100))) (Math_round (fl (clamp M 0 1 * 100)))
              (Math_round (fl (clamp Y 0 1 * 100))) (Math_round (fl (clamp K 0 1 * 100))))"

text \<open>Converting to CMYK and back, on integer channels.\<close>

definition roundTrip :: "int \<Rightarrow> int \<Rightarrow> int \<Rightarrow> rgb" where
  "roundTrip r g b =
     (case rgbToCmyk (real_of_int r) (real_of_int g) (real_of_int b) of
        CMYK c m y k \<Rightarrow> cmykToRgb (real_of_int c) (real_of_int m) (real_of_int y) (real_of_int k))"

text \<open>Two colours differ by at most \<open>d\<close> in every channel.\<close>

fun channelsWithin :: "int \<Rightarrow> rgb \<Rightarrow> rgb \<Rightarrow> bool" where
  "channelsWithin d (RGB r g b) (RGB r' g' b') = (\<bar>r' - r\<bar> \<le> d \<and> \<bar>g' - g\<bar> \<le> d \<and> \<bar>b' - b\<bar> \<le> d)"

definition rgbToHex :: "int \<Rightarrow> int \<Rightarrow> int \<Rightarrow> string" where
  "rgbToHex r g b = CHR ''#'' # concat (map (\<lambda>v. padStart2 (toString16 v)) [r, g, b])"

text \<open>
  \<open>hexToRgb\<close> of the sidebar matches \<open>/^#?([a-f\d]{2})([a-f\d]{2})([a-f\d]{2})$/i\<close>: one
  optional leading \<open>#\<close>, then exactly six hexadecimal digits up to the end of the string.
  Without a match it returns \<open>null\<close> (here \<open>None\<close>); with one, each pair of digits is read
  by \<open>parseInt(pair, 16)\<close>, which on two hexadecimal digits is their value.
\<close>

definition hexToRgb :: "string \<Rightarrow> rgb option" where
  "hexToRgb hex =
     (let body = (case hex of ch # rest \<Rightarrow> if ch = CHR ''#'' then rest else hex | [] \<Rightarrow> hex)
      in if length body = 6 \<and> list_all isHexDigit body
         then Some (RGB (hexValue (take 2 body))
                        (hexValue (take 2 (drop 2 body)))
                        (hexValue (drop 4 body)))
         else None)"

text \<open>A string of exactly six hexadecimal digits: what the specification says the sidebar's
  function accepts, after an optional \<open>#\<close>.\<close>

definition sixHexDigits :: "string \<Rightarrow> bool" where
  "sixHexDigits s = (length s = 6 \<and> list_all isHexDigit s)"

section \<open>The pointer handlers of the stage (CanvasStage.tsx)\<close>





text \<open>A pointer event: whether it hit an existing object, and the canvas pointer.\<close>

record pointerEvent =
  target :: bool
  pointer :: "real \<times> real"














section \<open>Evaluation rules\<close>

lemmas parse_defs = expand3_def parseInt16_def stripSign_def stripPrefix_def
  isWhiteSpace_def isHexDigit_def hexDigit_def hexValue_def toNumber_def toInt32_def

lemmas colour_defs = stage_hexToRgb_def toRgba_def parse_defs

lemma toRgba_red: "toRgba ''#ff0000'' a = RGBA 255 0 0 a"
  by (simp add: colour_defs)

lemma toRgba_blue: "toRgba ''#0000ff'' a = RGBA 0 0 255 a"
  by (simp add: colour_defs)

lemma mix_red_blue_half: "mixColor ''#ff0000'' ''#0000ff'' (1 / 2) = ''#800080''"
  by code_simp

lemma toRgba_purple: "toRgba ''#800080'' a = RGBA 128 0 128 a"
  by (simp add: colour_defs)

section \<open>The rounding to doubles\<close>

lemma bitlen_pos: "0 < n \<Longrightarrow> 0 < bitlen n"
  by (simp add: bitlen.simps [of n])

lemma bitlen_lower: "0 < n \<Longrightarrow> 2 ^ (bitlen n - 1) \<le> n"
proof (induction n rule: bitlen.induct)
  case (1 n)
  have step: "bitlen n = Suc (bitlen (n div 2))"
    using "1.prems" by (simp add: bitlen.simps [of n])
  show ?case
  proof (cases "n div 2 = 0")
    case True
    then have "bitlen (n div 2) = 0" by (simp add: bitlen.simps [of 0])
    then show ?thesis using step "1.prems" by simp
  next
    case False
    then have pos: "0 < n div 2" using "1.prems" by simp
    have ih: "2 ^ (bitlen (n div 2) - 1) \<le> n div 2"
      using "1.IH" pos "1.prems" by simp
    have "(2 :: int) ^ bitlen (n div 2) = 2 * 2 ^ (bitlen (n div 2) - 1)"
      using bitlen_pos [OF pos] by (cases "bitlen (n div 2)") simp_all
    then have "(2 :: int) ^ bitlen (n div 2) \<le> 2 * (n div 2)"
      using ih by simp
    also have "\<dots> \<le> n" by simp
    finally show ?thesis using step by simp
  qed
qed

lemma bitlen_upper: "0 \<le> n \<Longrightarrow> n < 2 ^ bitlen n"
proof (induction n rule: bitlen.induct)
  case (1 n)
  show ?case
  proof (cases "n = 0")
    case True
    then show ?thesis by simp
  next
    case False
    then have npos: "0 < n" using "1.prems" by simp
    have step: "bitlen n = Suc (bitlen (n div 2))"
      using npos by (simp add: bitlen.simps [of n])
    have ih: "n div 2 < 2 ^ bitlen (n div 2)"
      using "1.IH" npos by simp
    then have "n div 2 + 1 \<le> 2 ^ bitlen (n div 2)" by simp
    then have "2 * (n div 2 + 1) \<le> 2 * 2 ^ bitlen (n div 2)" by simp
    moreover have "n < 2 * (n div 2 + 1)" by presburger
    ultimately show ?thesis using step by simp
  qed
qed

lemma ilog2_lower:
  assumes "0 < y"
  shows "2 powi ilog2 y \<le> y"
proof (cases "1 \<le> y")
  case True
  then have fpos: "0 < \<lfloor>y\<rfloor>" by simp
  have "ilog2 y = int (bitlen \<lfloor>y\<rfloor> - 1)"
    using bitlen_pos [OF fpos] True by (simp add: ilog2_def)
  then have "2 powi ilog2 y = real_of_int (2 ^ (bitlen \<lfloor>y\<rfloor> - 1))"
    by simp
  also have "\<dots> \<le> real_of_int \<lfloor>y\<rfloor>"
    using bitlen_lower [OF fpos] by (simp only: of_int_le_iff)
  also have "\<dots> \<le> y" by simp
  finally show ?thesis .
next
  case False
  define b where "b = bitlen (\<lceil>1 / y\<rceil> - 1)"
  have "y < 1" using False by simp
  then have z: "1 < 1 / y" using assms by (simp add: less_divide_eq)
  have "1 < real_of_int \<lceil>1 / y\<rceil>"
    using z le_of_int_ceiling [of "1 / y"] by linarith
  then have "1 < \<lceil>1 / y\<rceil>" by (simp only: of_int_1_less_iff)
  then have "0 \<le> \<lceil>1 / y\<rceil> - 1" by linarith
  then have "\<lceil>1 / y\<rceil> - 1 < 2 ^ b"
    unfolding b_def by (rule bitlen_upper)
  then have "\<lceil>1 / y\<rceil> \<le> 2 ^ b" by simp
  then have "1 / y \<le> real_of_int (2 ^ b)"
    by (simp only: ceiling_le_iff)
  then have "1 / y \<le> 2 ^ b"
    by simp
  then have "1 \<le> 2 ^ b * y"
    using assms by (simp add: field_simps)
  then have "1 / 2 ^ b \<le> y"
    by (simp add: field_simps)
  moreover have "(2 :: real) powi ilog2 y = 1 / 2 ^ b"
    using False by (simp add: ilog2_def b_def power_int_minus inverse_eq_divide)
  ultimately show ?thesis by simp
qed

lemma roundHalfEven_err: "\<bar>real_of_int (roundHalfEven y) - y\<bar> \<le> 1 / 2"
proof -
  have "real_of_int \<lfloor>y\<rfloor> \<le> y" "y < real_of_int \<lfloor>y\<rfloor> + 1" by linarith+
  then show ?thesis
    by (auto simp add: roundHalfEven_def Let_def)
qed




lemma fl_zero: "fl 0 = 0"
  by (simp add: fl_def)

lemma fl_err:
  assumes "\<bar>x\<bar> \<le> 32768"
  shows "\<bar>fl x - x\<bar> \<le> 1 / 274877906944"
proof (cases "x = 0")
  case True
  then show ?thesis by (simp add: fl_def)
next
  case False
  define e where "e = max (ilog2 \<bar>x\<bar>) (- 1022)"
  define u :: real where "u = 2 powi (e - 52)"
  have upos: "0 < u" by (simp add: u_def)
  have "2 powi ilog2 \<bar>x\<bar> \<le> \<bar>x\<bar>"
    using False by (intro ilog2_lower) simp
  then have "(2 :: real) powi ilog2 \<bar>x\<bar> \<le> 2 powi 15"
    using assms by simp
  then have "ilog2 \<bar>x\<bar> \<le> 15"
    by (rule power_int_le_imp_le_exp [rotated]) simp_all
  then have "e - 52 \<le> - 37" by (simp add: e_def)
  then have "u \<le> 2 powi (- 37)"
    unfolding u_def by (intro power_int_increasing) simp_all
  then have u37: "u \<le> 1 / 2 ^ 37" by (simp add: power_int_minus field_simps)
  have "fl x = real_of_int (roundHalfEven (x / u)) * u"
    using False by (simp add: fl_def Let_def u_def e_def)
  then have "fl x - x = (real_of_int (roundHalfEven (x / u)) - x / u) * u"
    using upos by (simp add: field_simps)
  then have "\<bar>fl x - x\<bar> = \<bar>real_of_int (roundHalfEven (x / u)) - x / u\<bar> * u"
    using upos by (simp add: abs_mult)
  also have "\<dots> \<le> 1 / 2 * u"
    using roundHalfEven_err [of "x / u"] upos by (intro mult_right_mono) simp_all
  also have "\<dots> \<le> 1 / 2 * (1 / 2 ^ 37)"
    using u37 by simp
  finally show ?thesis by simp
qed


section \<open>The stop list of a compiled gradient\<close>

lemma offsets_grad:
  "offsets (grad options width height) =
     (if typeOf options = ''radial'' \<or> typeOf options = ''conic'' \<or> typeOf options = ''diamond''
      then [0, midOf options, 1]
      else if typeOf options = ''reflected'' then [0, midOf options, 1 - midOf options, 1]
      else if typeOf options = ''multi-point'' \<or> typeOf options = ''multi''
      then [0, 35 / 100, 7 / 10, 1]
      else [0, midOf options, 1])"
  by (simp add: offsets_def grad_def Let_def stop_def)

text \<open>
  C1, as the code has it. When \<open>mid\<close> is absent or lies in \<open>[0, 100]\<close>, every stop offset
  of the compiled gradient lies in \<open>[0, 1]\<close>, and the stop list is ordered by offset and
  within \<open>[0, 1]\<close> exactly when the family is not the reflected one or \<open>mid \<le> 50\<close>: the
  reflected stops are \<open>0, mid, 1 - mid, 1\<close>. Nothing clamps \<open>mid\<close>.
\<close>

theorem stops_ordered_in_unit:
  assumes "0 \<le> midPctOf options" and "midPctOf options \<le> 100"
  shows "list_all inUnit (offsets (grad options width height)) \<and>
         (stopsOrderedInUnit (grad options width height) \<longleftrightarrow>
            (typeOf options = ''reflected'' \<longrightarrow> midPctOf options \<le> 50))"
proof -
  have m: "0 \<le> midOf options" "midOf options \<le> 1"
    using assms by (simp_all add: midOf_def)
  have half: "midOf options \<le> 1 / 2 \<longleftrightarrow> midPctOf options \<le> 50"
    by (simp add: midOf_def)
  have inU: "list_all inUnit (offsets (grad options width height))"
    using m by (simp add: offsets_grad inUnit_def)
  have srt: "sorted (offsets (grad options width height)) \<longleftrightarrow>
      (typeOf options = ''reflected'' \<longrightarrow> midPctOf options \<le> 50)"
    using m half by (auto simp add: offsets_grad)
  show ?thesis using inU srt by (simp add: stopsOrderedInUnit_def)
qed

theorem stops_ordered_in_unit_witness:
  "0 \<le> midPctOf \<lparr>type = ''Reflected'', c1 = ''#ff0000'', c2 = ''#0000ff'', mid = Some 30,
       angle = None, opacity = None, origin = None, aspectRatio = None, reverse = None,
       applyTo = None\<rparr>
   \<and> midPctOf \<lparr>type = ''Reflected'', c1 = ''#ff0000'', c2 = ''#0000ff'', mid = Some 30,
       angle = None, opacity = None, origin = None, aspectRatio = None, reverse = None,
       applyTo = None\<rparr> \<le> 100
   \<and> stopsOrderedInUnit (grad \<lparr>type = ''Reflected'', c1 = ''#ff0000'', c2 = ''#0000ff'',
       mid = Some 30, angle = None, opacity = None, origin = None, aspectRatio = None,
       reverse = None, applyTo = None\<rparr> 100 50)"
  using stops_ordered_in_unit [of "\<lparr>type = ''Reflected'', c1 = ''#ff0000'', c2 = ''#0000ff'',
       mid = Some 30, angle = None, opacity = None, origin = None, aspectRatio = None,
       reverse = None, applyTo = None\<rparr>" 100 50]
  by (simp add: midPctOf_def)

text \<open>
  C1 as stated fails: with \<open>mid = 150\<close> the linear stops are \<open>0, 1.5, 1\<close>, and with
  \<open>mid = 80\<close> the reflected stops are \<open>0, 0.8, 0.2, 1\<close>.
\<close>

theorem stops_ordered_in_unit_counterexample:
  "offsets (grad \<lparr>type = ''linear'', c1 = ''#ff0000'', c2 = ''#0000ff'', mid = Some 150,
       angle = None, opacity = None, origin = None, aspectRatio = None, reverse = None,
       applyTo = None\<rparr> 100 50) = [0, 3 / 2, 1]
   \<and> \<not> stopsOrderedInUnit (grad \<lparr>type = ''linear'', c1 = ''#ff0000'', c2 = ''#0000ff'',
       mid = Some 150, angle = None, opacity = None, origin = None, aspectRatio = None,
       reverse = None, applyTo = None\<rparr> 100 50)
   \<and> offsets (grad \<lparr>type = ''reflected'', c1 = ''#ff0000'', c2 = ''#0000ff'', mid = Some 80,
       angle = None, opacity = None, origin = None, aspectRatio = None, reverse = None,
       applyTo = None\<rparr> 100 50) = [0, 4 / 5, 1 / 5, 1]
   \<and> \<not> stopsOrderedInUnit (grad \<lparr>type = ''reflected'', c1 = ''#ff0000'', c2 = ''#0000ff'',
       mid = Some 80, angle = None, opacity = None, origin = None, aspectRatio = None,
       reverse = None, applyTo = None\<rparr> 100 50)"
  by (simp add: offsets_grad stopsOrderedInUnit_def inUnit_def typeOf_def toLowerCase_def
      toLowerChar_def midOf_def midPctOf_def)

section \<open>The families of the gradient compiler\<close>

text \<open>The compiled gradient depends on the options only through the values the loop
  body derives from them.\<close>

lemma grad_cong:
  assumes "typeOf a = typeOf b" and "midOf a = midOf b" and "originOf a = originOf b"
    and "aspectOf a = aspectOf b" and "angleValOf a = angleValOf b" and "alphaOf a = alphaOf b"
    and "cStartOf a = cStartOf b" and "cEndOf a = cEndOf b"
  shows "grad a width height = grad b width height"
  by (simp only: grad_def assms)


text \<open>
  C2. The linear gradient from \<open>#ff0000\<close> to \<open>#0000ff\<close> with \<open>mid = 50\<close>, \<open>angle = 0\<close>,
  \<open>reverse = false\<close>, \<open>opacity = 100\<close> on a 100 by 50 box: whatever origin and aspect ratio
  are passed, it starts at the origin scaled into the box, ends at the start plus
  \<open>(cos(angle) * width * aspect, sin(angle) * height)\<close> with the aspect factor the code
  derives from the aspect ratio, and has exactly the three stops \<open>0 \<mapsto> rgba(255, 0, 0, 1)\<close>,
  \<open>0.5 \<mapsto> rgba(128, 0, 128, 1)\<close>, \<open>1 \<mapsto> rgba(0, 0, 255, 1)\<close>. With no origin and no aspect
  ratio the line runs from \<open>(0, 0)\<close> to \<open>(100, 0)\<close>.
\<close>

theorem linear_red_blue:
  "(let options = \<lparr>type = ''linear'', c1 = ''#ff0000'', c2 = ''#0000ff'', mid = Some 50,
          angle = Some 0, opacity = Some 100, origin = orig, aspectRatio = ar,
          reverse = Some False, applyTo = tgt\<rparr>;
        x1 = 100 * fst (originOf options);
        y1 = 50 * snd (originOf options)
    in grad options 100 50 =
         LinearGradient x1 y1
           (x1 + cos (0 * pi / 180) * 100 * aspectOf options) (y1 + sin (0 * pi / 180) * 50)
           [stop 0 (RGBA 255 0 0 1), stop (1 / 2) (RGBA 128 0 128 1), stop 1 (RGBA 0 0 255 1)])
   \<and> grad \<lparr>type = ''linear'', c1 = ''#ff0000'', c2 = ''#0000ff'', mid = Some 50,
          angle = Some 0, opacity = Some 100, origin = None, aspectRatio = None,
          reverse = Some False, applyTo = tgt\<rparr> 100 50 =
         LinearGradient 0 0 100 0
           [stop 0 (RGBA 255 0 0 1), stop (1 / 2) (RGBA 128 0 128 1), stop 1 (RGBA 0 0 255 1)]"
proof -
  have general: "grad \<lparr>type = ''linear'', c1 = ''#ff0000'', c2 = ''#0000ff'', mid = Some 50,
          angle = Some 0, opacity = Some 100, origin = p, aspectRatio = q,
          reverse = Some False, applyTo = tgt\<rparr> 100 50 =
        LinearGradient (100 * fst (case p of None \<Rightarrow> (0, 0) | Some v \<Rightarrow> v))
          (50 * snd (case p of None \<Rightarrow> (0, 0) | Some v \<Rightarrow> v))
          (100 * fst (case p of None \<Rightarrow> (0, 0) | Some v \<Rightarrow> v)
             + 100 * max (1 / 100) (case q of None \<Rightarrow> 1 | Some a \<Rightarrow> or_num a 1))
          (50 * snd (case p of None \<Rightarrow> (0, 0) | Some v \<Rightarrow> v))
          [stop 0 (RGBA 255 0 0 1), stop (1 / 2) (RGBA 128 0 128 1), stop 1 (RGBA 0 0 255 1)]"
    for p q
    by (simp add: grad_def typeOf_def toLowerCase_def toLowerChar_def midOf_def midPctOf_def
        angleValOf_def alphaOf_def cStartOf_def cEndOf_def originOf_def aspectOf_def or_num_def
        Let_def toRgba_red toRgba_blue mix_red_blue_half toRgba_purple)
  show ?thesis
    by (simp add: general Let_def originOf_def aspectOf_def)
qed

theorem linear_red_blue_witness:
  "grad \<lparr>type = ''linear'', c1 = ''#ff0000'', c2 = ''#0000ff'', mid = Some 50,
          angle = Some 0, opacity = Some 100, origin = Some (1 / 4, 1 / 2),
          aspectRatio = Some 2, reverse = Some False, applyTo = Some Fill\<rparr> 100 50 =
     LinearGradient 25 25 225 25
       [stop 0 (RGBA 255 0 0 1), stop (1 / 2) (RGBA 128 0 128 1), stop 1 (RGBA 0 0 255 1)]"
  using linear_red_blue [of "Some (1 / 4, 1 / 2)" "Some 2" "Some Fill"]
  by (simp add: Let_def originOf_def aspectOf_def or_num_def)

text \<open>
  C3, as the code has it. For the radial and the conic family the compiled gradient is
  radial with inner radius \<open>0\<close>, outer radius \<open>max(width, height) / 2\<close> and the three stops
  \<open>0 \<mapsto> c1\<close>, \<open>mid \<mapsto> mix(c1, c2, mid)\<close>, \<open>1 \<mapsto> c2\<close> (the colours after the swap of
  \<open>reverse\<close>, as rgba with the alpha of the opacity). Each coordinate of the centre is the
  origin's coordinate scaled into the box when that coordinate is not \<open>0\<close>, and half the
  width or height when the origin is absent or the coordinate is \<open>0\<close>.
\<close>

theorem radial_conic_gradient:
  assumes "typeOf options = ''radial'' \<or> typeOf options = ''conic''"
  shows "grad options width height =
     (let cx = (case origin options of None \<Rightarrow> width / 2
                | Some (x, y) \<Rightarrow> if x = 0 then width / 2 else width * x);
          cy = (case origin options of None \<Rightarrow> height / 2
                | Some (x, y) \<Rightarrow> if y = 0 then height / 2 else height * y)
      in RadialGradient cx cy 0 cx cy (max width height / 2)
           [stop 0 (toRgba (cStartOf options) (alphaOf options)),
            stop (midOf options)
              (toRgba (mixColor (cStartOf options) (cEndOf options) (midOf options))
                 (alphaOf options)),
            stop 1 (toRgba (cEndOf options) (alphaOf options))])"
  using assms by (auto simp add: grad_def Let_def originOf_def or_num_def split: option.splits)

theorem radial_conic_gradient_witness:
  "(typeOf \<lparr>type = ''Conic'', c1 = ''#ff0000'', c2 = ''#0000ff'', mid = Some 50,
       angle = None, opacity = None, origin = Some (1 / 4, 0), aspectRatio = None,
       reverse = None, applyTo = None\<rparr> = ''radial''
    \<or> typeOf \<lparr>type = ''Conic'', c1 = ''#ff0000'', c2 = ''#0000ff'', mid = Some 50,
       angle = None, opacity = None, origin = Some (1 / 4, 0), aspectRatio = None,
       reverse = None, applyTo = None\<rparr> = ''conic'')
   \<and> grad \<lparr>type = ''Conic'', c1 = ''#ff0000'', c2 = ''#0000ff'', mid = Some 50,
       angle = None, opacity = None, origin = Some (1 / 4, 0), aspectRatio = None,
       reverse = None, applyTo = None\<rparr> 100 50 =
     RadialGradient 25 25 0 25 25 50
       [stop 0 (RGBA 255 0 0 1), stop (1 / 2) (RGBA 128 0 128 1), stop 1 (RGBA 0 0 255 1)]"
  using radial_conic_gradient [of "\<lparr>type = ''Conic'', c1 = ''#ff0000'', c2 = ''#0000ff'',
       mid = Some 50, angle = None, opacity = None, origin = Some (1 / 4, 0),
       aspectRatio = None, reverse = None, applyTo = None\<rparr>" 100 50]
  by (simp add: typeOf_def toLowerCase_def toLowerChar_def midOf_def midPctOf_def alphaOf_def
      cStartOf_def cEndOf_def toRgba_red toRgba_blue mix_red_blue_half toRgba_purple)

text \<open>
  C3 as stated fails: with the origin \<open>(0, 0)\<close> supplied, the centre of the radial gradient
  on a 100 by 50 box is \<open>(50, 25)\<close>, not \<open>(100 * 0, 50 * 0)\<close>.
\<close>

theorem radial_conic_gradient_counterexample:
  "grad \<lparr>type = ''radial'', c1 = ''#ff0000'', c2 = ''#0000ff'', mid = Some 50,
       angle = None, opacity = None, origin = Some (0, 0), aspectRatio = None,
       reverse = None, applyTo = None\<rparr> 100 50 =
     RadialGradient 50 25 0 50 25 50
       [stop 0 (RGBA 255 0 0 1), stop (1 / 2) (RGBA 128 0 128 1), stop 1 (RGBA 0 0 255 1)]
   \<and> grad \<lparr>type = ''radial'', c1 = ''#ff0000'', c2 = ''#0000ff'', mid = Some 50,
       angle = None, opacity = None, origin = Some (0, 0), aspectRatio = None,
       reverse = None, applyTo = None\<rparr> 100 50 \<noteq>
     RadialGradient (100 * 0) (50 * 0) 0 (100 * 0) (50 * 0) (max 100 50 / 2)
       [stop 0 (RGBA 255 0 0 1), stop (1 / 2) (RGBA 128 0 128 1), stop 1 (RGBA 0 0 255 1)]"
  by (simp add: grad_def typeOf_def toLowerCase_def toLowerChar_def midOf_def midPctOf_def
      angleValOf_def alphaOf_def cStartOf_def cEndOf_def originOf_def aspectOf_def or_num_def
      Let_def toRgba_red toRgba_blue mix_red_blue_half toRgba_purple)

lemma mix_red_blue_quarter: "mixColor ''#ff0000'' ''#0000ff'' (1 / 4) = ''#bf0040''"
  by code_simp

lemma mix_blue_red_quarter: "mixColor ''#0000ff'' ''#ff0000'' (1 / 4) = ''#4000bf''"
  by code_simp

text \<open>
  C4. Compiling with \<open>reverse = true\<close> gives exactly the gradient compiled from the same
  options with \<open>c1\<close> and \<open>c2\<close> interchanged and \<open>reverse = false\<close>. In the linear family the
  reversed stops are \<open>0 \<mapsto> c2\<close>, \<open>mid \<mapsto> mix(c2, c1, mid)\<close>, \<open>1 \<mapsto> c1\<close>: the middle colour
  is mixed from the swapped pair, and it is not the unswapped mix in general (red and blue
  at \<open>mid = 25\<close> mix to \<open>#bf0040\<close>, blue and red to \<open>#4000bf\<close>).
\<close>

theorem reverse_swaps_colours:
  "grad (options\<lparr>reverse := Some True\<rparr>) width height =
     grad (options\<lparr>c1 := c2 options, c2 := c1 options, reverse := Some False\<rparr>) width height
   \<and> colorStops (grad (options\<lparr>type := ''linear'', reverse := Some True\<rparr>) width height) =
       [stop 0 (toRgba (c2 options) (alphaOf options)),
        stop (midOf options)
          (toRgba (mixColor (c2 options) (c1 options) (midOf options)) (alphaOf options)),
        stop 1 (toRgba (c1 options) (alphaOf options))]
   \<and> mixColor ''#0000ff'' ''#ff0000'' (1 / 4) \<noteq> mixColor ''#ff0000'' ''#0000ff'' (1 / 4)"
proof -
  have swap: "grad (options\<lparr>reverse := Some True\<rparr>) width height =
     grad (options\<lparr>c1 := c2 options, c2 := c1 options, reverse := Some False\<rparr>) width height"
    by (rule grad_cong)
       (simp_all add: typeOf_def midOf_def midPctOf_def originOf_def aspectOf_def
          angleValOf_def alphaOf_def cStartOf_def cEndOf_def)
  have ty: "typeOf (options\<lparr>type := ''linear'', reverse := Some True\<rparr>) = ''linear''"
    by (simp add: typeOf_def toLowerCase_def toLowerChar_def)
  have stops: "colorStops (grad (options\<lparr>type := ''linear'', reverse := Some True\<rparr>) width height) =
       [stop 0 (toRgba (c2 options) (alphaOf options)),
        stop (midOf options)
          (toRgba (mixColor (c2 options) (c1 options) (midOf options)) (alphaOf options)),
        stop 1 (toRgba (c1 options) (alphaOf options))]"
    by (simp add: grad_def ty Let_def)
       (simp add: midOf_def midPctOf_def alphaOf_def cStartOf_def cEndOf_def)
  show ?thesis
    using swap stops by (simp add: mix_red_blue_quarter mix_blue_red_quarter)
qed

theorem reverse_swaps_colours_witness:
  "colorStops (grad \<lparr>type = ''linear'', c1 = ''#ff0000'', c2 = ''#0000ff'', mid = Some 25,
       angle = None, opacity = None, origin = None, aspectRatio = None, reverse = Some True,
       applyTo = None\<rparr> 100 50) =
     [stop 0 (RGBA 0 0 255 1), stop (1 / 4) (toRgba ''#4000bf'' 1), stop 1 (RGBA 255 0 0 1)]"
  using reverse_swaps_colours [of "\<lparr>type = ''linear'', c1 = ''#ff0000'', c2 = ''#0000ff'',
       mid = Some 25, angle = None, opacity = None, origin = None, aspectRatio = None,
       reverse = Some True, applyTo = None\<rparr>" 100 50, THEN conjunct2, THEN conjunct1]
  by (simp add: midOf_def midPctOf_def alphaOf_def toRgba_red toRgba_blue mix_blue_red_quarter)



text \<open>
  C10. The aspect factor is \<open>max(0.01, aspectRatio)\<close> for a non-zero aspect ratio and \<open>1\<close>
  for an absent or zero one, so it is strictly positive. The diamond family's outer radius
  is \<open>min(width, height) / 2\<close> times this factor, and every linear-family gradient runs
  from its start point along \<open>(cos(angle) * width * factor, sin(angle) * height)\<close>: a zero
  or negative aspect ratio neither annihilates nor flips the sign of the radius or of the
  horizontal extent.
\<close>

theorem aspect_sanitized:
  "aspectOf options =
     (case aspectRatio options of None \<Rightarrow> 1
      | Some a \<Rightarrow> if a = 0 then 1 else max (1 / 100) a)
   \<and> 0 < aspectOf options
   \<and> (typeOf options = ''diamond'' \<longrightarrow>
        outerRadius (grad options width height) = Some (min width height / 2 * aspectOf options)
        \<and> sgn (min width height / 2 * aspectOf options) = sgn (min width height))
   \<and> (typeOf options \<notin> {''radial'', ''conic'', ''diamond''} \<longrightarrow>
        direction (grad options width height) =
          Some (cos (angleValOf options * pi / 180) * width * aspectOf options,
                sin (angleValOf options * pi / 180) * height)
        \<and> sgn (cos (angleValOf options * pi / 180) * width * aspectOf options) =
            sgn (cos (angleValOf options * pi / 180) * width))"
proof -
  have eq: "aspectOf options =
     (case aspectRatio options of None \<Rightarrow> 1
      | Some a \<Rightarrow> if a = 0 then 1 else max (1 / 100) a)"
    by (simp add: aspectOf_def or_num_def split: option.splits)
  have pos: "0 < aspectOf options"
    by (simp add: aspectOf_def max_def)
  have dia: "typeOf options = ''diamond'' \<Longrightarrow>
        outerRadius (grad options width height) = Some (min width height / 2 * aspectOf options)"
    by (simp add: grad_def Let_def)
  have lin: "typeOf options \<notin> {''radial'', ''conic'', ''diamond''} \<Longrightarrow>
        direction (grad options width height) =
          Some (cos (angleValOf options * pi / 180) * width * aspectOf options,
                sin (angleValOf options * pi / 180) * height)"
    by (simp add: grad_def Let_def)
  have sg: "sgn (v * aspectOf options) = sgn v" for v
    using pos by (simp add: sgn_mult)
  have sg2: "sgn (min width height / 2 * aspectOf options) = sgn (min width height)"
    using sg [of "min width height / 2"] by (simp add: sgn_divide)
  show ?thesis using eq pos dia lin sg sg2 by blast
qed

theorem aspect_sanitized_witness:
  "typeOf \<lparr>type = ''Diamond'', c1 = ''#ff0000'', c2 = ''#0000ff'', mid = None,
       angle = None, opacity = None, origin = None, aspectRatio = Some (- 3), reverse = None,
       applyTo = None\<rparr> = ''diamond''
   \<and> outerRadius (grad \<lparr>type = ''Diamond'', c1 = ''#ff0000'', c2 = ''#0000ff'', mid = None,
       angle = None, opacity = None, origin = None, aspectRatio = Some (- 3), reverse = None,
       applyTo = None\<rparr> 100 50) = Some (1 / 4)
   \<and> typeOf \<lparr>type = ''linear'', c1 = ''#ff0000'', c2 = ''#0000ff'', mid = None,
       angle = None, opacity = None, origin = None, aspectRatio = Some 0, reverse = None,
       applyTo = None\<rparr> \<notin> {''radial'', ''conic'', ''diamond''}
   \<and> direction (grad \<lparr>type = ''linear'', c1 = ''#ff0000'', c2 = ''#0000ff'', mid = None,
       angle = None, opacity = None, origin = None, aspectRatio = Some 0, reverse = None,
       applyTo = None\<rparr> 100 50) = Some (100, 0)"
  using aspect_sanitized [of "\<lparr>type = ''Diamond'', c1 = ''#ff0000'', c2 = ''#0000ff'',
       mid = None, angle = None, opacity = None, origin = None, aspectRatio = Some (- 3),
       reverse = None, applyTo = None\<rparr>" 100 50]
    aspect_sanitized [of "\<lparr>type = ''linear'', c1 = ''#ff0000'', c2 = ''#0000ff'',
       mid = None, angle = None, opacity = None, origin = None, aspectRatio = Some 0,
       reverse = None, applyTo = None\<rparr>" 100 50]
  by (simp add: typeOf_def toLowerCase_def toLowerChar_def angleValOf_def)

section \<open>The pointer handlers\<close>












section \<open>CMYK and back\<close>

text \<open>
  Every intermediate result of the two conversions is below \<open>2^15\<close> in magnitude, where a
  rounding moves a number by at most \<open>2^-38\<close>. That is far less than what separates the
  exact percentages from the bounds an integer needs.
\<close>

lemma fl_near:
  assumes "\<bar>x - y\<bar> \<le> d" and "\<bar>x\<bar> \<le> 32768"
  shows "\<bar>fl x - y\<bar> \<le> d + 1 / 274877906944"
  using assms(1) fl_err [OF assms(2)] by linarith

lemma Math_round_near: "\<bar>real_of_int (Math_round x) - x\<bar> \<le> 1 / 2"
  unfolding Math_round_def by linarith

lemma clamp_near:
  assumes "0 \<le> q" "q \<le> 1" "\<bar>x - q\<bar> \<le> d"
  shows "\<bar>clamp x 0 1 - q\<bar> \<le> d"
  using assms unfolding clamp_def by linarith

text \<open>An integer within less than one of a bound is within the bound.\<close>

lemma int_abs_le:
  fixes n b :: int
  assumes "\<bar>real_of_int n\<bar> < real_of_int b + 1"
  shows "\<bar>n\<bar> \<le> b"
proof -
  have "real_of_int \<bar>n\<bar> < real_of_int (b + 1)" using assms by simp
  then have "\<bar>n\<bar> < b + 1" by (simp only: of_int_less_iff)
  then show ?thesis by simp
qed

lemma key_bound:
  fixes m :: int
  assumes m: "0 \<le> m" "m \<le> 255"
  defines "K \<equiv> fl (1 - fl (real_of_int m / 255))"
  shows "\<bar>K - (1 - real_of_int m / 255)\<bar> \<le> 2 / 274877906944"
proof -
  define Mx where "Mx = fl (real_of_int m / 255)"
  have r: "\<bar>real_of_int m / 255\<bar> \<le> 1" using m by simp
  have Mx: "\<bar>Mx - real_of_int m / 255\<bar> \<le> 1 / 274877906944"
    unfolding Mx_def using r by (intro fl_err) linarith
  have "\<bar>(1 - Mx) - (1 - real_of_int m / 255)\<bar> \<le> 1 / 274877906944"
    using Mx by linarith
  moreover have "\<bar>1 - Mx\<bar> \<le> 32768" using Mx r by linarith
  ultimately have "\<bar>fl (1 - Mx) - (1 - real_of_int m / 255)\<bar> \<le> 1 / 274877906944 + 1 / 274877906944"
    by (rule fl_near)
  then show ?thesis by (simp add: K_def Mx_def)
qed

lemma k_bound:
  fixes m :: int
  assumes m: "0 \<le> m" "m \<le> 255"
  defines "K \<equiv> fl (1 - fl (real_of_int m / 255))"
  defines "k \<equiv> Math_round (fl (clamp K 0 1 * 100))"
  shows "0 \<le> k" and "k \<le> 100" and "\<bar>2 * (255 * k - 100 * (255 - m))\<bar> \<le> 255"
proof -
  define q where "q = 1 - real_of_int m / 255"
  define cl where "cl = clamp K 0 1"
  define P where "P = fl (cl * 100)"
  have q: "0 \<le> q" "q \<le> 1" using m by (simp_all add: q_def)
  have K: "\<bar>K - q\<bar> \<le> 2 / 274877906944"
    unfolding K_def q_def using m by (rule key_bound)
  have cl: "\<bar>cl - q\<bar> \<le> 2 / 274877906944"
    unfolding cl_def using q K by (rule clamp_near)
  have clr: "0 \<le> cl" "cl \<le> 1" by (simp_all add: cl_def clamp_def)
  have "\<bar>cl * 100 - 100 * q\<bar> \<le> 200 / 274877906944" using cl by linarith
  moreover have "\<bar>cl * 100\<bar> \<le> 32768" using clr by linarith
  ultimately have P: "\<bar>P - 100 * q\<bar> \<le> 200 / 274877906944 + 1 / 274877906944"
    unfolding P_def by (rule fl_near)
  have Pr: "\<bar>P - cl * 100\<bar> \<le> 1 / 274877906944"
    unfolding P_def using clr by (intro fl_err) linarith
  have kP: "\<bar>real_of_int k - P\<bar> \<le> 1 / 2"
    unfolding k_def P_def cl_def by (rule Math_round_near)
  have kfloor: "k = \<lfloor>P + 1 / 2\<rfloor>"
    by (simp add: k_def P_def cl_def Math_round_def)
  have "0 \<le> P + 1 / 2" using Pr clr by linarith
  then show "0 \<le> k" unfolding kfloor by simp
  have "P + 1 / 2 < 101" using Pr clr by linarith
  then have "\<lfloor>P + 1 / 2\<rfloor> < 101" by (simp add: floor_less_iff)
  then show "k \<le> 100" unfolding kfloor by simp
  have "\<bar>real_of_int k - 100 * q\<bar> \<le> 1 / 2 + 201 / 274877906944"
    using kP P by linarith
  then have "\<bar>510 * real_of_int k - 51000 * q\<bar> \<le> 255 + 102510 / 274877906944"
    by linarith
  moreover have "51000 * q = real_of_int (200 * (255 - m))"
    by (simp add: q_def)
  ultimately have "\<bar>real_of_int (2 * (255 * k - 100 * (255 - m)))\<bar> \<le> 255 + 102510 / 274877906944"
    by simp
  then have "\<bar>real_of_int (2 * (255 * k - 100 * (255 - m)))\<bar> < real_of_int 255 + 1"
    by simp
  then show "\<bar>2 * (255 * k - 100 * (255 - m))\<bar> \<le> 255"
    by (rule int_abs_le)
qed

lemma key_not_one:
  fixes m :: int
  assumes m: "1 \<le> m" "m \<le> 255"
  shows "fl (1 - fl (real_of_int m / 255)) \<noteq> 1"
proof -
  have "\<bar>fl (1 - fl (real_of_int m / 255)) - (1 - real_of_int m / 255)\<bar> \<le> 2 / 274877906944"
    using m by (intro key_bound) simp_all
  moreover have "1 / 255 \<le> real_of_int m / 255" using m by simp
  ultimately show ?thesis by linarith
qed

lemma c_bound:
  fixes m v :: int
  assumes m: "1 \<le> m" "m \<le> 255" and v: "0 \<le> v" "v \<le> m"
  defines "K \<equiv> fl (1 - fl (real_of_int m / 255))"
  defines "c \<equiv> Math_round (fl (clamp
      (fl (fl (fl (1 - fl (real_of_int v / 255)) - K) / fl (1 - K))) 0 1 * 100))"
  shows "0 \<le> c" and "c \<le> 100" and "\<bar>2 * (c * m - 100 * (m - v))\<bar> \<le> m"
proof -
  define rm where "rm = real_of_int m"
  define rv where "rv = real_of_int v"
  define q where "q = (rm - rv) / rm"
  define R where "R = fl (rv / 255)"
  define A1 where "A1 = fl (1 - R)"
  define A2 where "A2 = fl (A1 - K)"
  define D where "D = fl (1 - K)"
  define Q where "Q = fl (A2 / D)"
  define cl where "cl = clamp Q 0 1"
  define P where "P = fl (cl * 100)"
  have rm: "1 \<le> rm" "rm \<le> 255" using m by (simp_all add: rm_def)
  have rv: "0 \<le> rv" "rv \<le> rm" using v by (simp_all add: rv_def rm_def)
  have q: "0 \<le> q" "q \<le> 1" using rm rv by (simp_all add: q_def)
  have qrm: "q * rm = rm - rv" using rm by (simp add: q_def)
  have K: "\<bar>K - (1 - rm / 255)\<bar> \<le> 2 / 274877906944"
    unfolding K_def rm_def using m by (intro key_bound) simp_all
  have rv1: "\<bar>rv / 255\<bar> \<le> 1" using rv rm by simp
  have R: "\<bar>R - rv / 255\<bar> \<le> 1 / 274877906944"
    unfolding R_def using rv1 by (intro fl_err) linarith
  have "\<bar>(1 - R) - (1 - rv / 255)\<bar> \<le> 1 / 274877906944" using R by linarith
  moreover have "\<bar>1 - R\<bar> \<le> 32768" using R rv1 by linarith
  ultimately have A1: "\<bar>A1 - (1 - rv / 255)\<bar> \<le> 1 / 274877906944 + 1 / 274877906944"
    unfolding A1_def by (rule fl_near)
  have rm1: "\<bar>rm / 255\<bar> \<le> 1" using rm by simp
  have dd: "(rm - rv) / 255 = rm / 255 - rv / 255"
    by (simp add: diff_divide_distrib)
  have "\<bar>(A1 - K) - (rm - rv) / 255\<bar> \<le> 4 / 274877906944"
    unfolding dd using A1 K by linarith
  moreover have "\<bar>A1 - K\<bar> \<le> 32768" using A1 K rv1 rm1 by linarith
  ultimately have A2: "\<bar>A2 - (rm - rv) / 255\<bar> \<le> 4 / 274877906944 + 1 / 274877906944"
    unfolding A2_def by (rule fl_near)
  have "\<bar>(1 - K) - rm / 255\<bar> \<le> 2 / 274877906944" using K by linarith
  moreover have "\<bar>1 - K\<bar> \<le> 32768" using K rm1 by linarith
  ultimately have D: "\<bar>D - rm / 255\<bar> \<le> 2 / 274877906944 + 1 / 274877906944"
    unfolding D_def by (rule fl_near)
  have "1 / 255 \<le> rm / 255" using rm by simp
  then have Dlow: "1 / 256 \<le> D" using D by linarith
  then have Dpos: "0 < D" by linarith
  have "q * (rm / 255) = (rm - rv) / 255" using qrm by simp
  then have "A2 - q * D = (A2 - (rm - rv) / 255) - q * (D - rm / 255)"
    by (simp add: algebra_simps)
  moreover have "\<bar>q * (D - rm / 255)\<bar> \<le> 1 * (3 / 274877906944)"
    unfolding abs_mult using q D by (intro mult_mono) simp_all
  ultimately have num: "\<bar>A2 - q * D\<bar> \<le> 8 / 274877906944"
    using A2 by linarith
  have "A2 / D - q = (A2 - q * D) / D" using Dpos by (simp add: field_simps)
  then have "\<bar>A2 / D - q\<bar> = \<bar>A2 - q * D\<bar> / D" using Dpos by (simp add: abs_divide)
  also have "\<dots> \<le> (8 / 274877906944) / D"
    using num Dpos by (intro divide_right_mono) simp_all
  also have "\<dots> \<le> (8 / 274877906944) / (1 / 256)"
    using Dlow by (intro divide_left_mono) simp_all
  finally have quo: "\<bar>A2 / D - q\<bar> \<le> 2048 / 274877906944" by simp
  moreover have "\<bar>A2 / D\<bar> \<le> 32768" using quo q by linarith
  ultimately have Q: "\<bar>Q - q\<bar> \<le> 2048 / 274877906944 + 1 / 274877906944"
    unfolding Q_def by (rule fl_near)
  have cl: "\<bar>cl - q\<bar> \<le> 2048 / 274877906944 + 1 / 274877906944"
    unfolding cl_def using q Q by (rule clamp_near)
  have clr: "0 \<le> cl" "cl \<le> 1" by (simp_all add: cl_def clamp_def)
  have Pr: "\<bar>P - cl * 100\<bar> \<le> 1 / 274877906944"
    unfolding P_def using clr by (intro fl_err) linarith
  have P: "\<bar>P - 100 * q\<bar> \<le> 204901 / 274877906944"
    using Pr cl by linarith
  have cfloor: "c = \<lfloor>P + 1 / 2\<rfloor>"
    by (simp add: c_def P_def cl_def Q_def A2_def A1_def D_def R_def rv_def Math_round_def)
  have cP: "\<bar>real_of_int c - P\<bar> \<le> 1 / 2"
    unfolding cfloor by linarith
  have "0 \<le> P + 1 / 2" using Pr clr by linarith
  then show "0 \<le> c" unfolding cfloor by simp
  have "P + 1 / 2 < 101" using Pr clr by linarith
  then have "\<lfloor>P + 1 / 2\<rfloor> < 101" by (simp add: floor_less_iff)
  then show "c \<le> 100" unfolding cfloor by simp
  have cq: "\<bar>real_of_int c - 100 * q\<bar> \<le> 1 / 2 + 204901 / 274877906944"
    using cP P by linarith
  have "\<bar>real_of_int c * rm - 100 * (rm - rv)\<bar> = \<bar>(real_of_int c - 100 * q) * rm\<bar>"
    using qrm by (simp add: algebra_simps)
  also have "\<dots> = \<bar>real_of_int c - 100 * q\<bar> * rm"
    using rm by (simp add: abs_mult)
  also have "\<dots> \<le> (1 / 2 + 204901 / 274877906944) * rm"
    using cq rm by (intro mult_right_mono) simp_all
  finally have w: "\<bar>real_of_int c * rm - 100 * (rm - rv)\<bar> \<le> (1 / 2 + 204901 / 274877906944) * rm" .
  define w where "w = real_of_int c * rm - 100 * (rm - rv)"
  have "\<bar>w\<bar> \<le> rm / 2 + 204901 / 274877906944 * rm"
    using w by (simp add: w_def algebra_simps)
  then have "\<bar>2 * w\<bar> < rm + 1"
    using rm by linarith
  then have "\<bar>2 * (real_of_int c * rm - 100 * (rm - rv))\<bar> < rm + 1"
    by (simp only: w_def)
  then have "\<bar>real_of_int (2 * (c * m - 100 * (m - v)))\<bar> < real_of_int m + 1"
    by (simp add: rm_def rv_def)
  then show "\<bar>2 * (c * m - 100 * (m - v))\<bar> \<le> m"
    by (rule int_abs_le)
qed

lemma one_minus_pct:
  fixes c :: int
  assumes "0 \<le> c" "c \<le> 100"
  defines "B \<equiv> fl (1 - fl (real_of_int c / 100))"
  shows "\<bar>B - real_of_int (100 - c) / 100\<bar> \<le> 2 / 274877906944"
proof -
  define x where "x = real_of_int c / 100"
  define Cb where "Cb = fl x"
  have x: "0 \<le> x" "x \<le> 1" using assms by (simp_all add: x_def)
  have Cb: "\<bar>Cb - x\<bar> \<le> 1 / 274877906944"
    unfolding Cb_def using x by (intro fl_err) linarith
  have "\<bar>(1 - Cb) - (1 - x)\<bar> \<le> 1 / 274877906944" using Cb by linarith
  moreover have "\<bar>1 - Cb\<bar> \<le> 32768" using Cb x by linarith
  ultimately have "\<bar>fl (1 - Cb) - (1 - x)\<bar> \<le> 1 / 274877906944 + 1 / 274877906944"
    by (rule fl_near)
  moreover have "1 - x = real_of_int (100 - c) / 100"
    by (simp add: x_def diff_divide_distrib)
  ultimately have "\<bar>fl (1 - Cb) - real_of_int (100 - c) / 100\<bar> \<le> 2 / 274877906944"
    by linarith
  then show ?thesis by (simp only: B_def Cb_def x_def)
qed

lemma t_bound:
  fixes c k :: int
  assumes c: "0 \<le> c" "c \<le> 100" and k: "0 \<le> k" "k \<le> 100"
  defines "t \<equiv> Math_round (fl (fl (255 * fl (1 - fl (real_of_int c / 100)))
                                  * fl (1 - fl (real_of_int k / 100))))"
  shows "\<bar>10000 * t - 255 * (100 - c) * (100 - k)\<bar> \<le> 5000"
proof -
  define a where "a = real_of_int (100 - c) / 100"
  define b where "b = real_of_int (100 - k) / 100"
  define B1 where "B1 = fl (1 - fl (real_of_int c / 100))"
  define B2 where "B2 = fl (1 - fl (real_of_int k / 100))"
  define T1 where "T1 = fl (255 * B1)"
  define T2 where "T2 = fl (T1 * B2)"
  have a: "0 \<le> a" "a \<le> 1" using c by (simp_all add: a_def)
  have b: "0 \<le> b" "b \<le> 1" using k by (simp_all add: b_def)
  have B1: "\<bar>B1 - a\<bar> \<le> 2 / 274877906944"
    unfolding B1_def a_def using c by (rule one_minus_pct)
  have B2: "\<bar>B2 - b\<bar> \<le> 2 / 274877906944"
    unfolding B2_def b_def using k by (rule one_minus_pct)
  have "\<bar>255 * B1 - 255 * a\<bar> \<le> 510 / 274877906944" using B1 by linarith
  moreover have "\<bar>255 * B1\<bar> \<le> 32768" using B1 a by linarith
  ultimately have T1: "\<bar>T1 - 255 * a\<bar> \<le> 510 / 274877906944 + 1 / 274877906944"
    unfolding T1_def by (rule fl_near)
  have T1r: "\<bar>T1\<bar> \<le> 256" using T1 a by linarith
  have "T1 * B2 - 255 * a * b = T1 * (B2 - b) + b * (T1 - 255 * a)"
    by (simp add: algebra_simps)
  moreover have "\<bar>T1 * (B2 - b)\<bar> \<le> 256 * (2 / 274877906944)"
    unfolding abs_mult using T1r B2 by (intro mult_mono) simp_all
  moreover have "\<bar>b * (T1 - 255 * a)\<bar> \<le> 1 * (511 / 274877906944)"
    unfolding abs_mult using b T1 by (intro mult_mono) simp_all
  ultimately have prod: "\<bar>T1 * B2 - 255 * a * b\<bar> \<le> 1023 / 274877906944"
    by linarith
  have ab: "0 \<le> a * b" "a * b \<le> 1"
    using a b by (simp_all add: mult_le_one)
  define p where "p = 255 * a * b"
  have pr: "0 \<le> p" "p \<le> 255" using ab by (simp_all add: p_def)
  have prod': "\<bar>T1 * B2 - p\<bar> \<le> 1023 / 274877906944"
    using prod by (simp only: p_def)
  moreover have "\<bar>T1 * B2\<bar> \<le> 32768" using prod' pr by linarith
  ultimately have T2: "\<bar>T2 - p\<bar> \<le> 1023 / 274877906944 + 1 / 274877906944"
    unfolding T2_def by (rule fl_near)
  have tT: "\<bar>real_of_int t - T2\<bar> \<le> 1 / 2"
    unfolding t_def T2_def T1_def B1_def B2_def by (rule Math_round_near)
  have "\<bar>real_of_int t - p\<bar> \<le> 1 / 2 + 1024 / 274877906944"
    using tT T2 by linarith
  then have "\<bar>10000 * real_of_int t - 10000 * p\<bar> < 5000 + 1"
    by linarith
  moreover have "10000 * p = real_of_int (255 * (100 - c) * (100 - k))"
    by (simp add: p_def a_def b_def)
  ultimately have "\<bar>real_of_int (10000 * t - 255 * (100 - c) * (100 - k))\<bar> < real_of_int 5000 + 1"
    by simp
  then show ?thesis by (rule int_abs_le)
qed

lemma div_bounds:
  fixes x d :: int
  assumes "0 < d"
  shows "d * (x div d) \<le> x" and "x < d * (x div d) + d"
proof -
  have "x = d * (x div d) + x mod d" by simp
  moreover have "0 \<le> x mod d" "x mod d < d" using assms by simp_all
  ultimately show "d * (x div d) \<le> x" and "x < d * (x div d) + d" by linarith+
qed

lemma channel_bound_gen:
  fixes m v a e p t :: int
  assumes a: "0 \<le> a" "a \<le> 100"
    and d1: "\<bar>2 * a * m - 200 * v\<bar> \<le> m"
    and e: "100 * m + 100 * \<bar>e\<bar> \<le> 49900"
    and p: "2 * p = 200 * a * m + a * e"
    and t: "\<bar>10000 * t - p\<bar> \<le> 5000"
  shows "\<bar>t - v\<bar> \<le> 2"
proof -
  have "\<bar>a * e\<bar> = a * \<bar>e\<bar>"
    using a by (simp add: abs_mult)
  also have "\<dots> \<le> 100 * \<bar>e\<bar>"
    using a by (intro mult_right_mono) simp_all
  finally have ae: "\<bar>a * e\<bar> \<le> 100 * \<bar>e\<bar>" .
  define w where "w = 2 * a * m - 200 * v"
  have w: "\<bar>w\<bar> \<le> m" using d1 by (simp add: w_def)
  have "200 * a * m = 100 * w + 20000 * v" by (simp add: w_def)
  then have "\<bar>2 * p - 20000 * v\<bar> \<le> 49900"
    using p ae w e by linarith
  then show ?thesis
    using t by linarith
qed

lemma e_bound:
  fixes m bq :: int
  assumes m: "1 \<le> m" "m \<le> 255"
    and d2: "\<bar>510 * bq - 200 * m\<bar> \<le> 255"
  shows "100 * m + 100 * \<bar>510 * bq - 200 * m\<bar> \<le> 49900"
proof (cases "m \<le> 244")
  case True
  define e where "e = 510 * bq - 200 * m"
  have "\<bar>e\<bar> \<le> 255"
    using d2 by (simp only: e_def)
  then have "100 * m + 100 * \<bar>e\<bar> \<le> 49900"
    using True by linarith
  then show ?thesis by (simp add: e_def)
next
  case False
  then have "m = 245 \<or> m = 246 \<or> m = 247 \<or> m = 248 \<or> m = 249 \<or> m = 250
    \<or> m = 251 \<or> m = 252 \<or> m = 253 \<or> m = 254 \<or> m = 255"
    using m by presburger
  then consider "m = 245" | "m = 246" | "m = 247" | "m = 248" | "m = 249" | "m = 250"
    | "m = 251" | "m = 252" | "m = 253" | "m = 254" | "m = 255"
    by blast
  then show ?thesis
  proof cases
    case 1
    have "bq = 96" using d2 unfolding 1 by simp
    then show ?thesis unfolding 1 by simp
  next
    case 2
    have "bq = 96" using d2 unfolding 2 by simp
    then show ?thesis unfolding 2 by simp
  next
    case 3
    have "bq = 97" using d2 unfolding 3 by simp
    then show ?thesis unfolding 3 by simp
  next
    case 4
    have "bq = 97" using d2 unfolding 4 by simp
    then show ?thesis unfolding 4 by simp
  next
    case 5
    have "bq = 98" using d2 unfolding 5 by simp
    then show ?thesis unfolding 5 by simp
  next
    case 6
    have "bq = 98" using d2 unfolding 6 by simp
    then show ?thesis unfolding 6 by simp
  next
    case 7
    have "bq = 98" using d2 unfolding 7 by simp
    then show ?thesis unfolding 7 by simp
  next
    case 8
    have "bq = 99" using d2 unfolding 8 by simp
    then show ?thesis unfolding 8 by simp
  next
    case 9
    have "bq = 99" using d2 unfolding 9 by simp
    then show ?thesis unfolding 9 by simp
  next
    case 10
    have "bq = 100" using d2 unfolding 10 by simp
    then show ?thesis unfolding 10 by simp
  next
    case 11
    have "bq = 100" using d2 unfolding 11 by simp
    then show ?thesis unfolding 11 by simp
  qed
qed

text \<open>One channel through both conversions, \<open>m\<close> being the largest channel.\<close>

lemma channel_round_trip:
  fixes m v :: int
  assumes v: "0 \<le> v" "v \<le> m" and m: "m \<le> 255"
  defines "K \<equiv> fl (1 - fl (real_of_int m / 255))"
  defines "C \<equiv> (if K = 1 then 0
                 else fl (fl (fl (1 - fl (real_of_int v / 255)) - K) / fl (1 - K)))"
  shows "\<bar>Math_round (fl (fl (255 * fl (1 - fl (real_of_int
             (Math_round (fl (clamp C 0 1 * 100))) / 100)))
           * fl (1 - fl (real_of_int (Math_round (fl (clamp K 0 1 * 100))) / 100)))) - v\<bar> \<le> 2"
proof (cases "m = 0")
  case True
  then have v0: "v = 0" using v by linarith
  have f: "fl 1 = 1" "fl 100 = 100" "fl 255 = 255" by code_simp+
  have K1: "K = 1" unfolding K_def True by (simp add: fl_zero f)
  have C0: "C = 0" unfolding C_def using K1 by simp
  show ?thesis
    unfolding C0 K1 v0 by (simp add: clamp_def Math_round_def fl_zero f)
next
  case False
  then have m1: "1 \<le> m" using v by linarith
  define c where "c = Math_round (fl (clamp
      (fl (fl (fl (1 - fl (real_of_int v / 255)) - K) / fl (1 - K))) 0 1 * 100))"
  define k where "k = Math_round (fl (clamp K 0 1 * 100))"
  define t where "t = Math_round (fl (fl (255 * fl (1 - fl (real_of_int c / 100)))
                                  * fl (1 - fl (real_of_int k / 100))))"
  have Kne: "K \<noteq> 1" unfolding K_def using m1 m by (rule key_not_one)
  have c: "0 \<le> c" "c \<le> 100" "\<bar>2 * (c * m - 100 * (m - v))\<bar> \<le> m"
    unfolding c_def K_def using c_bound [OF m1 m v] by simp_all
  have m0: "0 \<le> m" using m1 by linarith
  have k: "0 \<le> k" "k \<le> 100" "\<bar>2 * (255 * k - 100 * (255 - m))\<bar> \<le> 255"
    unfolding k_def K_def using k_bound [OF m0 m] by simp_all
  have t: "\<bar>10000 * t - 255 * (100 - c) * (100 - k)\<bar> \<le> 5000"
    unfolding t_def using c(1,2) k(1,2) by (rule t_bound)
  define a where "a = 100 - c"
  define bq where "bq = 100 - k"
  define e where "e = 510 * bq - 200 * m"
  have a: "0 \<le> a" "a \<le> 100" using c(1,2) by (simp_all add: a_def)
  have "2 * a * m - 200 * v = - (2 * (c * m - 100 * (m - v)))"
    by (simp add: a_def algebra_simps)
  then have d1: "\<bar>2 * a * m - 200 * v\<bar> \<le> m" using c(3) by simp
  have "510 * bq - 200 * m = - (2 * (255 * k - 100 * (255 - m)))"
    by (simp add: bq_def algebra_simps)
  then have d2: "\<bar>510 * bq - 200 * m\<bar> \<le> 255" using k(3) by simp
  have eb: "100 * m + 100 * \<bar>e\<bar> \<le> 49900"
    unfolding e_def using m1 m d2 by (rule e_bound)
  have p: "2 * (255 * a * bq) = 200 * a * m + a * e"
    by (simp add: e_def algebra_simps)
  have t': "\<bar>10000 * t - 255 * a * bq\<bar> \<le> 5000"
    using t by (simp only: a_def bq_def)
  have "\<bar>t - v\<bar> \<le> 2"
    using a d1 eb p t' by (rule channel_bound_gen)
  then show ?thesis
    unfolding t_def c_def k_def C_def using Kne by simp
qed

text \<open>The largest of the three scaled channels is the scaled largest channel.\<close>

lemma scaled_mono:
  fixes a b :: int
  assumes "0 \<le> a" "a \<le> b" "b \<le> 255"
  shows "fl (real_of_int a / 255) \<le> fl (real_of_int b / 255)"
proof (cases "a = b")
  case True
  then show ?thesis by simp
next
  case False
  then have "a + 1 \<le> b" using assms by linarith
  then have "real_of_int a + 1 \<le> real_of_int b" by linarith
  then have gap: "real_of_int a / 255 + 1 / 255 \<le> real_of_int b / 255"
    by (simp add: field_simps)
  have ra: "\<bar>real_of_int a / 255\<bar> \<le> 32768" using assms by simp
  have rb: "\<bar>real_of_int b / 255\<bar> \<le> 32768" using assms by simp
  show ?thesis
    using gap fl_err [OF ra] fl_err [OF rb] by linarith
qed

lemma scaled_max:
  fixes a b :: int
  assumes "0 \<le> a" "a \<le> 255" "0 \<le> b" "b \<le> 255"
  shows "max (fl (real_of_int a / 255)) (fl (real_of_int b / 255))
       = fl (real_of_int (max a b) / 255)"
proof (cases "a \<le> b")
  case True
  then show ?thesis using scaled_mono [OF assms(1) True assms(4)] by (simp add: max_def)
next
  case False
  then have "b \<le> a" by linarith
  then show ?thesis using scaled_mono [OF assms(3) _ assms(2)] by (simp add: max_def)
qed

lemma rgbToCmyk_10_5_8: "rgbToCmyk 10 5 8 = CMYK 0 50 20 96"
  by code_simp

lemma roundTrip_10_5_8: "roundTrip 10 5 8 = RGB 10 5 8"
  by code_simp

lemma roundTrip_black: "rgbToCmyk 0 0 0 = CMYK 0 0 0 100 \<and> roundTrip 0 0 0 = RGB 0 0 0"
  by code_simp

text \<open>Where the exact quotient is a tie, the double decides: \<open>(8 - 5) / 8\<close> is 37.5 per
  cent, and the code's quotient lies just below it.\<close>

lemma rgbToCmyk_tie: "rgbToCmyk 0 5 8 = CMYK 100 37 0 97"
  by code_simp

text \<open>
  C8, as the code has it. For integer channels in \<open>[0, 255]\<close>, \<open>cmykToRgb\<close> applied to
  \<open>rgbToCmyk(r, g, b)\<close> gives back the triple within 2 per channel. \<open>rgbToCmyk(10, 5, 8)\<close> is
  \<open>c = 0, m = 50, y = 20, k = 96\<close> and converts back to \<open>(10, 5, 8)\<close> exactly; pure black is
  \<open>c = m = y = 0, k = 100\<close> and converts back to black.
\<close>

theorem cmyk_round_trip:
  assumes "0 \<le> r" "r \<le> 255" "0 \<le> g" "g \<le> 255" "0 \<le> b" "b \<le> 255"
  shows "channelsWithin 2 (RGB r g b) (roundTrip r g b)
     \<and> rgbToCmyk 10 5 8 = CMYK 0 50 20 96 \<and> roundTrip 10 5 8 = RGB 10 5 8
     \<and> rgbToCmyk 0 0 0 = CMYK 0 0 0 100 \<and> roundTrip 0 0 0 = RGB 0 0 0"
proof -
  define m where "m = max (max r g) b"
  have rg: "0 \<le> max r g" "max r g \<le> 255" using assms by simp_all
  have mx: "max (max (fl (real_of_int r / 255)) (fl (real_of_int g / 255)))
        (fl (real_of_int b / 255)) = fl (real_of_int m / 255)"
    unfolding m_def
    by (simp only: scaled_max [OF assms(1,2,3,4)] scaled_max [OF rg assms(5,6)])
  have m: "m \<le> 255" "r \<le> m" "g \<le> m" "b \<le> m"
    using assms by (simp_all add: m_def)
  have cr: "\<bar>Math_round (fl (fl (255 * fl (1 - fl (real_of_int
             (Math_round (fl (clamp
               (if fl (1 - fl (real_of_int m / 255)) = 1 then 0
                else fl (fl (fl (1 - fl (real_of_int v / 255)) - fl (1 - fl (real_of_int m / 255)))
                       / fl (1 - fl (1 - fl (real_of_int m / 255)))))
               0 1 * 100))) / 100)))
           * fl (1 - fl (real_of_int (Math_round (fl (clamp
               (fl (1 - fl (real_of_int m / 255))) 0 1 * 100))) / 100)))) - v\<bar> \<le> 2"
    if "0 \<le> v" "v \<le> m" for v
    using channel_round_trip [OF that m(1)] .
  have "channelsWithin 2 (RGB r g b) (roundTrip r g b)"
    unfolding roundTrip_def rgbToCmyk_def cmykToRgb_def Let_def mx
    using cr [OF assms(1) m(2)] cr [OF assms(3) m(3)] cr [OF assms(5) m(4)]
    by (simp only: cmyk.case channelsWithin.simps simp_thms)
  then show ?thesis
    using rgbToCmyk_10_5_8 roundTrip_10_5_8 roundTrip_black by simp
qed

theorem cmyk_round_trip_witness:
  "(0 :: int) \<le> 200 \<and> (200 :: int) \<le> 255 \<and> (0 :: int) \<le> 100 \<and> (100 :: int) \<le> 255
   \<and> (0 :: int) \<le> 50 \<and> (50 :: int) \<le> 255
   \<and> channelsWithin 2 (RGB 200 100 50) (roundTrip 200 100 50)"
  using cmyk_round_trip [of 200 100 50]
  by simp

text \<open>
  C8 as stated fails: \<open>(65, 64, 64)\<close> becomes \<open>c = 0, m = 2, y = 2, k = 75\<close> and comes back as
  \<open>(64, 62, 62)\<close>, two off in green and blue; and \<open>rgbToCmyk(10, 5, 8)\<close> has \<open>m = 50\<close> and
  \<open>y = 20\<close>, not values near zero.
\<close>

theorem cmyk_round_trip_counterexample:
  "rgbToCmyk 65 64 64 = CMYK 0 2 2 75 \<and> roundTrip 65 64 64 = RGB 64 62 62
   \<and> \<not> channelsWithin 1 (RGB 65 64 64) (roundTrip 65 64 64)
   \<and> rgbToCmyk 10 5 8 = CMYK 0 50 20 96"
  by code_simp

section \<open>Hexadecimal colours\<close>

lemma isHexDigit_cases:
  assumes "isHexDigit d"
  shows "d \<in> set ''0123456789abcdefABCDEF''"
  using assms by (simp add: isHexDigit_def hexDigit_def split: if_splits)

lemma hexDigit_props:
  assumes "isHexDigit d"
  shows "\<not> isWhiteSpace d" and "d \<noteq> CHR ''-''" and "d \<noteq> CHR ''+''" and "d \<noteq> CHR ''x''"
    and "d \<noteq> CHR ''X''" and "d \<noteq> CHR ''#''"
    and "0 \<le> the (hexDigit d)" and "the (hexDigit d) \<le> 15"
  using isHexDigit_cases [OF assms] by (auto simp add: isWhiteSpace_def hexDigit_def)

lemma and_255: "and (x :: int) 255 = x mod 256"
proof -
  have "(255 :: int) = mask 8" by (simp add: mask_eq_exp_minus_1)
  then have "and x 255 = take_bit 8 x" by (simp only: take_bit_eq_mask)
  then show ?thesis by (simp add: take_bit_eq_mod)
qed

lemma channels_of_bytes:
  fixes A B C :: int
  assumes "0 \<le> A" "A \<le> 255" "0 \<le> B" "B \<le> 255" "0 \<le> C" "C \<le> 255"
  shows "and (drop_bit 16 (A * 65536 + B * 256 + C)) 255 = A"
    and "and (drop_bit 8 (A * 65536 + B * 256 + C)) 255 = B"
    and "and (A * 65536 + B * 256 + C) 255 = C"
proof -
  have "(A * 65536 + B * 256 + C) div 65536 = A"
    using assms by (simp add: div_pos_pos_trivial)
  then show "and (drop_bit 16 (A * 65536 + B * 256 + C)) 255 = A"
    using assms by (simp add: and_255 drop_bit_eq_div)
  have "A * 65536 + B * 256 + C = (A * 256 + B) * 256 + C" by simp
  then have "(A * 65536 + B * 256 + C) div 256 = A * 256 + B"
    using assms by (simp add: div_pos_pos_trivial)
  then show "and (drop_bit 8 (A * 65536 + B * 256 + C)) 255 = B"
    using assms by (simp add: and_255 drop_bit_eq_div)
  have "A * 65536 + B * 256 + C = C + (A * 256 + B) * 256" by simp
  then have "(A * 65536 + B * 256 + C) mod 256 = C mod 256"
    by (simp only: mod_mult_self1)
  then show "and (A * 65536 + B * 256 + C) 255 = C"
    using assms by (simp add: and_255)
qed

lemma wellFormed_stage: "wellFormed (stage_hexToRgb s)"
  by (simp add: stage_hexToRgb_def Let_def)

lemma parse_six:
  assumes "isHexDigit d1" "isHexDigit d2" "isHexDigit d3" "isHexDigit d4" "isHexDigit d5"
    "isHexDigit d6"
  shows "parseInt16 [d1, d2, d3, d4, d5, d6] = toNumber (hexValue [d1, d2, d3, d4, d5, d6])"
proof -
  have ws: "dropWhile isWhiteSpace [d1, d2, d3, d4, d5, d6] = [d1, d2, d3, d4, d5, d6]"
    using hexDigit_props(1) [OF assms(1)] by simp
  have sg: "stripSign [d1, d2, d3, d4, d5, d6] = (1, [d1, d2, d3, d4, d5, d6])"
    using hexDigit_props(2,3) [OF assms(1)] by (simp add: stripSign_def)
  have px: "stripPrefix [d1, d2, d3, d4, d5, d6] = [d1, d2, d3, d4, d5, d6]"
    using hexDigit_props(4,5) [OF assms(2)] by (simp add: stripPrefix_def)
  have tw: "takeWhile isHexDigit [d1, d2, d3, d4, d5, d6] = [d1, d2, d3, d4, d5, d6]"
    using assms by simp
  have "parseInt16 [d1, d2, d3, d4, d5, d6] =
      map_option (\<lambda>v. 1 * v) (toNumber (hexValue [d1, d2, d3, d4, d5, d6]))"
    by (simp only: parseInt16_def ws sg px tw Let_def prod.case list.simps if_False)
  then show ?thesis
    by (simp add: option.map_ident)
qed

lemma hexValue_six:
  "hexValue [d1, d2, d3, d4, d5, d6] =
     (16 * the (hexDigit d1) + the (hexDigit d2)) * 65536
     + (16 * the (hexDigit d3) + the (hexDigit d4)) * 256
     + (16 * the (hexDigit d5) + the (hexDigit d6))"
  by (simp add: hexValue_def)

lemma stage_six:
  assumes "isHexDigit d1" "isHexDigit d2" "isHexDigit d3" "isHexDigit d4" "isHexDigit d5"
    "isHexDigit d6"
  shows "stage_hexToRgb [d1, d2, d3, d4, d5, d6] =
     RGB (16 * the (hexDigit d1) + the (hexDigit d2))
         (16 * the (hexDigit d3) + the (hexDigit d4))
         (16 * the (hexDigit d5) + the (hexDigit d6))"
proof -
  define A where "A = 16 * the (hexDigit d1) + the (hexDigit d2)"
  define B where "B = 16 * the (hexDigit d3) + the (hexDigit d4)"
  define C where "C = 16 * the (hexDigit d5) + the (hexDigit d6)"
  have A: "0 \<le> A" "A \<le> 255"
    using hexDigit_props(7,8) [OF assms(1)] hexDigit_props(7,8) [OF assms(2)]
    by (simp_all add: A_def)
  have B: "0 \<le> B" "B \<le> 255"
    using hexDigit_props(7,8) [OF assms(3)] hexDigit_props(7,8) [OF assms(4)]
    by (simp_all add: B_def)
  have C: "0 \<le> C" "C \<le> 255"
    using hexDigit_props(7,8) [OF assms(5)] hexDigit_props(7,8) [OF assms(6)]
    by (simp_all add: C_def)
  have hv: "hexValue [d1, d2, d3, d4, d5, d6] = A * 65536 + B * 256 + C"
    by (simp only: hexValue_six A_def B_def C_def)
  have range: "0 \<le> A * 65536 + B * 256 + C" "A * 65536 + B * 256 + C < 16777216"
    using A B C by linarith+
  have num: "toNumber (A * 65536 + B * 256 + C) = Some (A * 65536 + B * 256 + C)"
    using range by (simp add: toNumber_def)
  have i32: "toInt32 (Some (A * 65536 + B * 256 + C)) = A * 65536 + B * 256 + C"
    using range by (simp add: toInt32_def Let_def)
  have nohash: "removeFirstHash [d1, d2, d3, d4, d5, d6] = [d1, d2, d3, d4, d5, d6]"
    using assms [THEN hexDigit_props(6)] by simp
  have ex: "expand3 [d1, d2, d3, d4, d5, d6] = [d1, d2, d3, d4, d5, d6]"
    by (simp add: expand3_def)
  have "stage_hexToRgb [d1, d2, d3, d4, d5, d6] =
      RGB (and (drop_bit 16 (A * 65536 + B * 256 + C)) 255)
          (and (drop_bit 8 (A * 65536 + B * 256 + C)) 255)
          (and (A * 65536 + B * 256 + C) 255)"
    by (simp only: stage_hexToRgb_def Let_def nohash ex parse_six [OF assms] hv num i32)
  then have "stage_hexToRgb [d1, d2, d3, d4, d5, d6] = RGB A B C"
    by (simp only: channels_of_bytes [OF A B C])
  then show ?thesis
    unfolding A_def B_def C_def .
qed

text \<open>On two hexadecimal digits \<open>parseInt(pair, 16)\<close> is their value, as the sidebar's
  \<open>hexToRgb\<close> is modelled.\<close>

lemma parse_pair:
  assumes "isHexDigit d1" "isHexDigit d2"
  shows "parseInt16 [d1, d2] = Some (hexValue [d1, d2])"
proof -
  have ws: "dropWhile isWhiteSpace [d1, d2] = [d1, d2]"
    using hexDigit_props(1) [OF assms(1)] by simp
  have sg: "stripSign [d1, d2] = (1, [d1, d2])"
    using hexDigit_props(2,3) [OF assms(1)] by (simp add: stripSign_def)
  have px: "stripPrefix [d1, d2] = [d1, d2]"
    using hexDigit_props(4,5) [OF assms(2)] by (simp add: stripPrefix_def)
  have tw: "takeWhile isHexDigit [d1, d2] = [d1, d2]"
    using assms by simp
  have small: "hexValue [d1, d2] < 2 ^ 53"
    using hexDigit_props(8) [OF assms(1)] hexDigit_props(8) [OF assms(2)]
    by (simp add: hexValue_def)
  have "parseInt16 [d1, d2] = map_option (\<lambda>v. 1 * v) (toNumber (hexValue [d1, d2]))"
    by (simp only: parseInt16_def ws sg px tw Let_def prod.case list.simps if_False)
  then show ?thesis
    using small by (simp add: toNumber_def)
qed

lemma sidebar_six:
  assumes "isHexDigit d1" "isHexDigit d2" "isHexDigit d3" "isHexDigit d4" "isHexDigit d5"
    "isHexDigit d6"
  shows "hexToRgb [d1, d2, d3, d4, d5, d6] =
     Some (RGB (16 * the (hexDigit d1) + the (hexDigit d2))
               (16 * the (hexDigit d3) + the (hexDigit d4))
               (16 * the (hexDigit d5) + the (hexDigit d6)))"
    and "hexToRgb (CHR ''#'' # [d1, d2, d3, d4, d5, d6]) = hexToRgb [d1, d2, d3, d4, d5, d6]"
  using assms hexDigit_props(6) [OF assms(1)]
  by (simp_all add: hexToRgb_def hexValue_def)

lemma removeFirstHash_none:
  assumes "CHR ''#'' \<notin> set s"
  shows "removeFirstHash s = s"
  using assms by (induction s) auto

lemma stage_hash:
  assumes "CHR ''#'' \<notin> set s"
  shows "stage_hexToRgb (CHR ''#'' # s) = stage_hexToRgb s"
  by (simp add: stage_hexToRgb_def removeFirstHash_none [OF assms])

lemma stage_three:
  assumes "isHexDigit d1" "isHexDigit d2" "isHexDigit d3"
  shows "stage_hexToRgb [d1, d2, d3] = stage_hexToRgb [d1, d1, d2, d2, d3, d3]"
proof -
  have nohash: "CHR ''#'' \<notin> set [d1, d2, d3]" "CHR ''#'' \<notin> set [d1, d1, d2, d2, d3, d3]"
    using assms [THEN hexDigit_props(6)] by auto
  have "expand3 [d1, d2, d3] = expand3 [d1, d1, d2, d2, d3, d3]"
    by (simp add: expand3_def)
  then show ?thesis
    by (simp only: stage_hexToRgb_def removeFirstHash_none [OF nohash(1)]
        removeFirstHash_none [OF nohash(2)])
qed

lemma hash_not_hex: "\<not> isHexDigit CHR ''#''"
  by (simp add: isHexDigit_def hexDigit_def)

text \<open>The strings the sidebar's function accepts.\<close>

lemma sidebar_accepts:
  "(hexToRgb t \<noteq> None) =
     (sixHexDigits t \<or> (\<exists>body. t = CHR ''#'' # body \<and> sixHexDigits body))"
proof (cases t)
  case Nil
  then show ?thesis by (simp add: hexToRgb_def sixHexDigits_def Let_def)
next
  case (Cons ch rest)
  show ?thesis
  proof (cases "ch = CHR ''#''")
    case True
    then show ?thesis
      using hash_not_hex by (simp add: Cons hexToRgb_def sixHexDigits_def Let_def)
  next
    case False
    then show ?thesis
      by (simp add: Cons hexToRgb_def sixHexDigits_def Let_def)
  qed
qed

text \<open>
  C9, as the code has it. There are two functions of this name. The one of the gradient
  code removes the first \<open>#\<close>, doubles each character of a three-character string and
  reads the leading hexadecimal digits: on six digits it returns their three bytes, on
  three digits what it returns for the doubled digits, with or without \<open>#\<close>, and on every
  string whatsoever a triple of channels in \<open>[0, 255]\<close>, never a sentinel. The one of the
  sidebar accepts exactly the strings of six hexadecimal digits, with or without one
  leading \<open>#\<close>, where it agrees with the first, and returns \<open>null\<close> for every other
  string: for three digits, and for six digits followed by anything.
\<close>

theorem hexToRgb_forms:
  assumes "isHexDigit d1" "isHexDigit d2" "isHexDigit d3" "isHexDigit d4" "isHexDigit d5"
    "isHexDigit d6"
  shows "stage_hexToRgb [d1, d2, d3, d4, d5, d6] =
           RGB (16 * the (hexDigit d1) + the (hexDigit d2))
               (16 * the (hexDigit d3) + the (hexDigit d4))
               (16 * the (hexDigit d5) + the (hexDigit d6))
     \<and> stage_hexToRgb (CHR ''#'' # [d1, d2, d3, d4, d5, d6]) =
           stage_hexToRgb [d1, d2, d3, d4, d5, d6]
     \<and> stage_hexToRgb [d1, d2, d3] = stage_hexToRgb [d1, d1, d2, d2, d3, d3]
     \<and> stage_hexToRgb (CHR ''#'' # [d1, d2, d3]) = stage_hexToRgb [d1, d1, d2, d2, d3, d3]
     \<and> wellFormed (stage_hexToRgb s)
     \<and> hexToRgb [d1, d2, d3, d4, d5, d6] = Some (stage_hexToRgb [d1, d2, d3, d4, d5, d6])
     \<and> hexToRgb (CHR ''#'' # [d1, d2, d3, d4, d5, d6]) =
           Some (stage_hexToRgb [d1, d2, d3, d4, d5, d6])
     \<and> hexToRgb [d1, d2, d3] = None
     \<and> hexToRgb (CHR ''#'' # [d1, d2, d3]) = None
     \<and> (hexToRgb t \<noteq> None) =
           (sixHexDigits t \<or> (\<exists>body. t = CHR ''#'' # body \<and> sixHexDigits body))
     \<and> hexToRgb ([d1, d2, d3, d4, d5, d6] @ c # cs) = None
     \<and> hexToRgb (CHR ''#'' # [d1, d2, d3, d4, d5, d6] @ c # cs) = None"
proof -
  have d1: "d1 \<noteq> CHR ''#''"
    using assms(1) hash_not_hex by auto
  have longer: "hexToRgb ([d1, d2, d3, d4, d5, d6] @ c # cs) = None"
    "hexToRgb (CHR ''#'' # [d1, d2, d3, d4, d5, d6] @ c # cs) = None"
    using d1 by (simp_all add: hexToRgb_def Let_def)
  have nohash6: "CHR ''#'' \<notin> set [d1, d2, d3, d4, d5, d6]"
    using assms [THEN hexDigit_props(6)] by auto
  have nohash3: "CHR ''#'' \<notin> set [d1, d2, d3]"
    using assms(1-3) [THEN hexDigit_props(6)] by auto
  have three: "hexToRgb [d1, d2, d3] = None" "hexToRgb (CHR ''#'' # [d1, d2, d3]) = None"
    by (simp_all add: hexToRgb_def)
  show ?thesis
    using stage_six [OF assms] sidebar_six [OF assms] stage_hash [OF nohash6]
      stage_hash [OF nohash3] stage_three [OF assms(1-3)] wellFormed_stage [of s] three
      sidebar_accepts [of t] longer
    by (simp only: simp_thms)
qed

theorem hexToRgb_forms_witness:
  "isHexDigit CHR ''1'' \<and> isHexDigit CHR ''a'' \<and> isHexDigit CHR ''2'' \<and> isHexDigit CHR ''B''
   \<and> isHexDigit CHR ''3'' \<and> isHexDigit CHR ''c''
   \<and> stage_hexToRgb ''1a2B3c'' = RGB 26 43 60
   \<and> stage_hexToRgb ''#1a2B3c'' = RGB 26 43 60
   \<and> hexToRgb ''#1a2B3c'' = Some (RGB 26 43 60)
   \<and> stage_hexToRgb ''#1a2'' = stage_hexToRgb ''11aa22''
   \<and> hexToRgb ''1a2'' = None
   \<and> hexToRgb ''#1a2B3czz'' = None
   \<and> hexToRgb ''1a2B3c#'' = None"
  using hexToRgb_forms [of "CHR ''1''" "CHR ''a''" "CHR ''2''" "CHR ''B''" "CHR ''3''" "CHR ''c''"
      "[]" "''1a2B3c#''" "CHR ''z''" "''z''"]
  by (simp add: isHexDigit_def hexDigit_def sixHexDigits_def)

text \<open>
  C9 as stated fails for either function: the sidebar's returns \<open>null\<close> for \<open>#abc\<close> but a
  colour for \<open>#aabbcc\<close>, and the gradient code's returns the well-formed colour
  \<open>(0, 0, 0)\<close> for the malformed \<open>zzz\<close>.
\<close>

theorem hexToRgb_forms_counterexample:
  "hexToRgb ''#abc'' = None \<and> hexToRgb ''#aabbcc'' = Some (RGB 170 187 204)
   \<and> hexToRgb ''#abc'' \<noteq> hexToRgb ''#aabbcc''
   \<and> stage_hexToRgb ''zzz'' = RGB 0 0 0 \<and> wellFormed (stage_hexToRgb ''zzz'')"
  by code_simp

end
